theory Spec2Isabelle
  imports Main "HOL-Library.Word"
begin

section \<open>Data model (internal/models/models.go)\<close>

text \<open>
  A \<open>time.Time\<close> built by \<open>time.Unix(int64(created_utc), 0)\<close> is represented by its
  epoch seconds, which is also what \<open>CreatedAt.Unix()\<close> reads back.  Go strings are byte
  sequences, so \<open>string\<close> (a list of 8-bit characters) is used and \<open>length\<close> is Go's
  \<open>len\<close>.
\<close>

text \<open>
  The zero value of \<open>time.Time\<close>, which a comment has when its \<open>CreatedAt\<close> is never
  set: January 1 of year 1, UTC, that is \<open>-62135596800\<close> as epoch seconds.
\<close>

definition zeroTime :: int where
  "zeroTime = - 62135596800"

datatype Comment = Comment
  (ID: string) (Author: string) (Body: string) (Score: int) (CreatedAt: int)
  (Replies: "Comment list") (IsMore: bool) (MoreIDs: "string list") (HasMore: bool)
  (MoreCount: int)

text \<open>Field update \<open>c.Replies = rs\<close>.\<close>

fun set_Replies :: "Comment \<Rightarrow> Comment list \<Rightarrow> Comment" where
  "set_Replies (Comment i a b s t _ m ids h n) rs = Comment i a b s t rs m ids h n"

record Post =
  P_ID :: string
  P_Title :: string
  P_Body :: string
  P_Author :: string
  P_Score :: int
  P_CreatedAt :: int
  P_Flair :: string
  P_URL :: string

record PostDetail =
  Post :: Post
  Comments :: "Comment list"

record UserComment =
  UC_ID :: string
  UC_Body :: string
  UC_Score :: int
  UC_CreatedAt :: int
  UC_Subreddit :: string
  UC_PostID :: string
  UC_PostTitle :: string
  UC_ParentAuthor :: string

record UserPost =
  UP_ID :: string
  UP_Title :: string
  UP_Body :: string
  UP_Score :: int
  UP_CreatedAt :: int
  UP_Subreddit :: string
  UP_URL :: string
  UP_Flair :: string

record UserInfo =
  Username :: string
  LinkKarma :: int
  CommentKarma :: int
  UI_CreatedAt :: int

record UserActivity =
  UserInfo :: UserInfo
  Posts :: "UserPost list"
  ActivityComments :: "UserComment list"

section \<open>Final placeholder sweep (internal/scraper/service.go)\<close>

text \<open>
  \<open>filterComments\<close> walks the list with a range loop.  The loop variable \<open>comment\<close> is a
  copy of the element; for a comment that is not a placeholder and has replies the
  function calls itself on \<open>&comment.Replies\<close>, which overwrites the copy's reply list
  with the filtered one, and the copy is what gets appended to \<open>filtered\<close>.  The model
  returns the number of removed nodes together with the new list.
\<close>

fun filterComments :: "Comment list \<Rightarrow> int \<times> Comment list" where
  "filterComments [] = (0, [])"
| "filterComments (Comment i a b s t reps m ids h n # cs) =
     (if \<not> m then
        (let (r1, reps') = (if length reps > 0 then filterComments reps else (0, reps));
             (r2, rest) = filterComments cs
         in (r1 + r2, Comment i a b s t reps' m ids h n # rest))
      else
        (let (r2, rest) = filterComments cs in (1 + r2, rest)))"

text \<open>
  The loop of \<open>cleanupMoreComments\<close> over the already filtered root list: every root
  comment with replies has its reply list filtered once more.
\<close>

fun cleanupReplies :: "Comment list \<Rightarrow> int \<times> Comment list" where
  "cleanupReplies [] = (0, [])"
| "cleanupReplies (c # cs) =
     (let (r1, reps') = (if length (Replies c) > 0 then filterComments (Replies c)
                         else (0, Replies c));
          (r2, rest) = cleanupReplies cs
      in (r1 + r2, set_Replies c reps' # rest))"

definition cleanupMoreComments :: "PostDetail \<Rightarrow> int \<times> PostDetail" where
  "cleanupMoreComments detail =
     (if length (Comments detail) = 0 then (0, detail)
      else
        (let (removed, cs) = filterComments (Comments detail);
             (removed', cs') = cleanupReplies cs
         in (removed + removed', detail\<lparr>Comments := cs'\<rparr>)))"

text \<open>No comment of the forest, at any depth, is a placeholder.\<close>

fun placeholderFree :: "Comment list \<Rightarrow> bool" where
  "placeholderFree [] = True"
| "placeholderFree (Comment i a b s t reps m ids h n # cs) =
     (\<not> m \<and> placeholderFree reps \<and> placeholderFree cs)"

text \<open>
  The sweep as one would specify it: drop every placeholder wherever it occurs, keep
  every other comment, in order, with its replies swept the same way.
\<close>

fun sweepAll :: "Comment list \<Rightarrow> Comment list" where
  "sweepAll [] = []"
| "sweepAll (Comment i a b s t reps m ids h n # cs) =
     (if m then sweepAll cs else Comment i a b s t (sweepAll reps) m ids h n # sweepAll cs)"

section \<open>Grafting fetched comments into the tree (internal/scraper/service.go)\<close>

record MoreCommentSet =
  Parent :: string
  CommentIDs :: "string list"
  Depth :: int
  PlaceholderID :: string

text \<open>
  \<open>sort.Slice(xs, less)\<close>.  The library does not promise a stable sort; for slices of
  at most twelve elements its implementation is the insertion sort below (each element
  moves left while it is \<open>less\<close> than its left neighbour), and that is the order the
  model fixes.  The accumulator of \<open>sinkLeft\<close> is the sorted prefix, rightmost element
  first.
\<close>

fun sinkLeft :: "('a \<Rightarrow> 'a \<Rightarrow> bool) \<Rightarrow> 'a \<Rightarrow> 'a list \<Rightarrow> 'a list" where
  "sinkLeft lt x [] = [x]"
| "sinkLeft lt x (y # ys) = (if lt x y then y # sinkLeft lt x ys else x # y # ys)"

definition sortSlice :: "('a \<Rightarrow> 'a \<Rightarrow> bool) \<Rightarrow> 'a list \<Rightarrow> 'a list" where
  "sortSlice lt xs = rev (fold (sinkLeft lt) xs [])"

text \<open>The first loop of \<open>placeComments\<close>: keep the first comment of every id (\<open>idMap\<close>).\<close>

fun uniqueBatch :: "string set \<Rightarrow> Comment list \<Rightarrow> Comment list" where
  "uniqueBatch idMap [] = []"
| "uniqueBatch idMap (c # cs) =
     (if ID c \<notin> idMap then c # uniqueBatch (insert (ID c) idMap) cs
      else uniqueBatch idMap cs)"

text \<open>
  \<open>addWithoutDuplicates\<close>: the set \<open>existingIDs\<close> is computed once, before the loop, from
  the list as it was; it is not extended while comments are appended.
\<close>

definition addWithoutDuplicates :: "Comment list \<Rightarrow> Comment list \<Rightarrow> Comment list" where
  "addWithoutDuplicates existingComments newComments =
     existingComments @ filter (\<lambda>c. ID c \<notin> set (map ID existingComments)) newComments"

fun appendToParent :: "Comment list \<Rightarrow> string \<Rightarrow> Comment list \<Rightarrow> bool \<times> Comment list" where
  "appendToParent [] parentID newComments = (False, [])"
| "appendToParent (Comment i a b s t reps m ids h n # cs) parentID newComments =
     (if i = parentID then
        (True, Comment i a b s t (addWithoutDuplicates reps newComments) m ids h n # cs)
      else
        (let (ok, reps') = (if length reps > 0 then appendToParent reps parentID newComments
                            else (False, reps))
         in if ok then (True, Comment i a b s t reps' m ids h n # cs)
            else (let (ok', cs') = appendToParent cs parentID newComments
                  in (ok', Comment i a b s t reps' m ids h n # cs'))))"

text \<open>Index of the first element with the given id that is a placeholder.\<close>

fun findPlaceholder :: "Comment list \<Rightarrow> string \<Rightarrow> nat option" where
  "findPlaceholder [] placeholderID = None"
| "findPlaceholder (c # cs) placeholderID =
     (if ID c = placeholderID \<and> IsMore c then Some 0
      else map_option Suc (findPlaceholder cs placeholderID))"

text \<open>
  The two assignments of \<open>replacePlaceholder\<close> at the index \<open>i\<close> found.

  For the last element the new list is \<open>append((*comments)[:i], newComments...)\<close>.

  Otherwise it is \<open>append(append((*comments)[:i], newComments...), (*comments)[i+1:]...)\<close>.
  \<open>(*comments)[:i]\<close> keeps the capacity of \<open>*comments\<close>, so when \<open>i + len(newComments)\<close>
  fits into that capacity the inner \<open>append\<close> writes the new comments into the backing
  array of \<open>*comments\<close>, over the elements from index \<open>i\<close> on; \<open>(*comments)[i+1:]\<close> is a
  window on the same array and is copied by the outer \<open>append\<close> only afterwards.  The
  capacity of a slice is not a function of its elements, so it is a parameter of the
  model (\<open>capacity\<close>, never less than the length).
\<close>

definition splice :: "nat \<Rightarrow> Comment list \<Rightarrow> nat \<Rightarrow> Comment list \<Rightarrow> Comment list" where
  "splice capacity comments i newComments =
     (if i = length comments - 1 then take i comments @ newComments
      else if i + length newComments \<le> max capacity (length comments) then
        (let backing = take i comments @ newComments @ drop (i + length newComments) comments
         in take i comments @ newComments @ drop (i + 1) (take (length comments) backing))
      else take i comments @ newComments @ drop (i + 1) comments)"

definition replacePlaceholder ::
  "nat \<Rightarrow> Comment list \<Rightarrow> string \<Rightarrow> Comment list \<Rightarrow> bool \<times> Comment list" where
  "replacePlaceholder capacity comments placeholderID newComments =
     (if length comments = 0 \<or> length newComments = 0 then (False, comments)
      else case findPlaceholder comments placeholderID of
             None \<Rightarrow> (False, comments)
           | Some i \<Rightarrow> (True, splice capacity comments i newComments))"

text \<open>
  \<open>replaceInTree\<close>.  A call that returns false has not changed the list it was given,
  so the model goes on with the list it had.  At most one list of the tree is spliced
  in a call; \<open>capacity\<close> is the capacity of that one.
\<close>

fun replaceInTree ::
  "nat \<Rightarrow> Comment list \<Rightarrow> string \<Rightarrow> string \<Rightarrow> Comment list \<Rightarrow> bool \<times> Comment list" where
  "replaceInTree capacity [] parentID placeholderID newComments = (False, [])"
| "replaceInTree capacity (Comment i a b s t reps m ids h n # cs) parentID placeholderID newComments =
     (if length newComments = 0 then (False, Comment i a b s t reps m ids h n # cs)
      else
        (let (ok, reps') = (if i = parentID
                            then replacePlaceholder capacity reps placeholderID newComments
                            else (False, reps))
         in if ok then (True, Comment i a b s t reps' m ids h n # cs)
            else
              (let (ok', reps'') = (if length reps > 0
                                    then replaceInTree capacity reps parentID placeholderID newComments
                                    else (False, reps))
               in if ok' then (True, Comment i a b s t reps'' m ids h n # cs)
                  else
                    (let (ok'', cs') = replaceInTree capacity cs parentID placeholderID newComments
                     in (ok'', Comment i a b s t reps m ids h n # cs')))))"

definition placeComments ::
  "nat \<Rightarrow> PostDetail \<Rightarrow> MoreCommentSet \<Rightarrow> Comment list \<Rightarrow> PostDetail" where
  "placeComments capacity detail task newComments =
     (if length newComments = 0 then detail
      else
        (let uniqueBatchComments =
               sortSlice (\<lambda>x y. CreatedAt x > CreatedAt y) (uniqueBatch {} newComments)
         in if Depth task = 0 then
              (let (placed, cs) = replacePlaceholder capacity (Comments detail)
                                    (PlaceholderID task) uniqueBatchComments
               in if \<not> placed
                  then detail\<lparr>Comments := addWithoutDuplicates cs uniqueBatchComments\<rparr>
                  else detail\<lparr>Comments := cs\<rparr>)
            else
              (let (placed, cs) = replaceInTree capacity (Comments detail) (Parent task)
                                    (PlaceholderID task) uniqueBatchComments
               in if \<not> placed then
                    (let (placed', cs') = appendToParent cs (Parent task) uniqueBatchComments
                     in if \<not> placed'
                        then detail\<lparr>Comments := addWithoutDuplicates cs' uniqueBatchComments\<rparr>
                        else detail\<lparr>Comments := cs'\<rparr>)
                  else detail\<lparr>Comments := cs\<rparr>)))"

section \<open>Errors and collaborators\<close>

text \<open>
  Go errors: \<open>ctx.Err()\<close>, an error handed back by a collaborator, \<open>fmt.Errorf\<close> with
  \<open>%w\<close> around another error, and \<open>fmt.Errorf\<close> with a fixed message.
\<close>

datatype error = CtxErr | Upstream string | Wrap string error | Failure string

text \<open>
  The scraper service reaches the network and the decoder only through the interfaces
  \<open>client.RedditClientInterface\<close> and \<open>parser.ParserInterface\<close>, so their methods are
  fields of a record the service functions take as an argument; \<open>'j\<close> is
  \<open>json.RawMessage\<close>.  The record also carries what the service reads from its
  surroundings:
  \<^item> \<open>ctxErr w n\<close>: whether \<open>ctx.Err()\<close> is non-nil at the \<open>n\<close>-th check made by walker \<open>w\<close>;
  \<^item> \<open>elapsed w n\<close>: \<open>time.Since(startTime)\<close> in nanoseconds at the check after page \<open>n\<close>;
  \<^item> the number passed to \<open>FetchJSON\<close> and \<open>FetchMoreComments\<close> counts the requests, so
    the upstream may answer the same URL differently over time;
  \<^item> \<open>unmarshalArray\<close>: \<open>json.Unmarshal\<close> into a \<open>[]json.RawMessage\<close>, \<open>None\<close> on error;
  \<^item> \<open>sliceCap round index\<close>: the capacity of the slice spliced by the graft of task
    \<open>index\<close> in round \<open>round\<close>.
\<close>

record 'j collaborators =
  ctxErr :: "string \<Rightarrow> nat \<Rightarrow> bool"
  elapsed :: "string \<Rightarrow> nat \<Rightarrow> int"
  sliceCap :: "nat \<Rightarrow> nat \<Rightarrow> nat"
  unmarshalArray :: "'j \<Rightarrow> 'j list option"
  FetchJSON :: "nat \<Rightarrow> string \<Rightarrow> error + 'j"
  FetchMoreComments :: "nat \<times> nat \<times> nat \<Rightarrow> string \<Rightarrow> string list \<Rightarrow> error + 'j"
  GetSubredditURL :: "string \<Rightarrow> int \<Rightarrow> string \<Rightarrow> string"
  GetUserAboutURL :: "string \<Rightarrow> string"
  GetUserPostsURL :: "string \<Rightarrow> string \<Rightarrow> string"
  GetUserCommentsURL :: "string \<Rightarrow> string \<Rightarrow> string"
  GetPostURL :: "string \<Rightarrow> string"
  GetSearchURL :: "(string \<rightharpoonup> string) \<Rightarrow> string"
  ParseSubreddit :: "'j \<Rightarrow> error + Post list \<times> string"
  ParseUserInfo :: "'j \<Rightarrow> error + UserInfo"
  ParseUserPosts :: "'j \<Rightarrow> error + UserPost list \<times> string"
  ParseUserComments :: "'j \<Rightarrow> error + UserComment list \<times> string"
  ParsePost :: "'j \<Rightarrow> 'j \<Rightarrow> error + PostDetail"
  ParseMoreComments :: "'j \<Rightarrow> error + Comment list"

section \<open>Thread expansion (internal/scraper/service.go)\<close>

definition TrimPrefix :: "string \<Rightarrow> string \<Rightarrow> string" where
  "TrimPrefix s prefix =
     (if take (length prefix) s = prefix then drop (length prefix) s else s)"

text \<open>
  The closure \<open>traverse\<close> of \<open>findMoreComments\<close>.  Its state is the map \<open>visited\<close>, the
  slice \<open>result\<close> and the number of \<open>ctx.Err()\<close> checks made so far.  A \<open>return\<close> leaves
  the current level only: the caller's loop goes on with the next sibling.
\<close>

fun traverse ::
  "(nat \<Rightarrow> bool) \<Rightarrow> Comment list \<Rightarrow> string \<Rightarrow> int \<Rightarrow>
   string set \<times> MoreCommentSet list \<times> nat \<Rightarrow> string set \<times> MoreCommentSet list \<times> nat" where
  "traverse cancelled [] parentID depth st = st"
| "traverse cancelled (Comment i a b s t reps m ids h n # cs) parentID depth (visited, result, tick) =
     (if cancelled tick then (visited, result, tick + 1)
      else
        (let (visited1, result1) =
               (if m \<and> length ids > 0 \<and> i \<notin> visited then
                  (insert i visited,
                   if ''continue'' \<in> set ids then result
                   else result @ [\<lparr>Parent = parentID, CommentIDs = ids, Depth = depth,
                                   PlaceholderID = i\<rparr>])
                else (visited, result));
             (visited2, result2) =
               (if h \<and> length ids > 0 \<and> (i @ ''-more'') \<notin> visited1 then
                  (insert (i @ ''-more'') visited1,
                   result1 @ [\<lparr>Parent = i, CommentIDs = ids, Depth = depth + 1,
                               PlaceholderID = i @ ''-more''\<rparr>])
                else (visited1, result1));
             st3 = (if length reps > 0
                    then traverse cancelled reps i (depth + 1) (visited2, result2, tick + 1)
                    else (visited2, result2, tick + 1))
         in traverse cancelled cs parentID depth st3))"

definition findMoreComments ::
  "(nat \<Rightarrow> bool) \<Rightarrow> nat \<Rightarrow> PostDetail \<Rightarrow> MoreCommentSet list \<times> nat" where
  "findMoreComments cancelled tick detail =
     (let (visited, result, tick') =
            traverse cancelled (Comments detail) (P_ID (Post detail)) 0 ({}, [], tick)
      in (sortSlice (\<lambda>x y. length (CommentIDs x) > length (CommentIDs y)) result, tick'))"

fun processLoop :: "int \<Rightarrow> string list \<Rightarrow> string set \<Rightarrow> string list \<Rightarrow> string list" where
  "processLoop limit [] uniqueIDs result = result"
| "processLoop limit (x # xs) uniqueIDs result =
     (if int (length result) \<ge> limit then result
      else if x = ''continue'' then processLoop limit xs uniqueIDs result
      else
        (let cleanID = TrimPrefix x ''t1_''
         in if cleanID \<notin> uniqueIDs
            then processLoop limit xs (insert cleanID uniqueIDs) (result @ [cleanID])
            else processLoop limit xs uniqueIDs result))"

text \<open>
  \<open>processCommentIDs\<close>.  Its only caller passes \<open>len(batch)\<close> as the limit, which is
  never negative (a negative limit would make \<open>make\<close> panic).
\<close>

definition processCommentIDs :: "string list \<Rightarrow> int \<Rightarrow> string list" where
  "processCommentIDs ids limit = (if length ids = 0 then [] else processLoop limit ids {} [])"

text \<open>The sub-batches \<open>validIDs[i:min(i+100, len)]\<close> for \<open>i = 0, 100, 200, ...\<close>.\<close>

function batchesOf100 :: "'a list \<Rightarrow> 'a list list" where
  "batchesOf100 xs = (if xs = [] then [] else take 100 xs # batchesOf100 (drop 100 xs))"
  by pat_completeness auto
termination
  by (relation "measure length") auto

text \<open>
  \<open>fetchMoreCommentsFast\<close>.  The sub-batches are fetched by goroutines that append their
  comments under a mutex; the model appends them in the order of the sub-batches.  A
  sub-batch whose fetch or parse fails contributes nothing.
\<close>

fun fetchBatches ::
  "'j collaborators \<Rightarrow> nat \<times> nat \<Rightarrow> string \<Rightarrow> nat \<Rightarrow> string list list \<Rightarrow> Comment list" where
  "fetchBatches env tag postID batchNum [] = []"
| "fetchBatches env tag postID batchNum (batch # rest) =
     (let processedIDs = processCommentIDs batch (int (length batch));
          got = (if length processedIDs = 0 then []
                 else case FetchMoreComments env (fst tag, snd tag, batchNum) postID processedIDs of
                        Inl e \<Rightarrow> []
                      | Inr data \<Rightarrow>
                          (case ParseMoreComments env data of
                             Inl e \<Rightarrow> []
                           | Inr comments \<Rightarrow> comments))
      in got @ fetchBatches env tag postID (batchNum + 1) rest)"

definition fetchMoreCommentsFast ::
  "'j collaborators \<Rightarrow> nat \<times> nat \<Rightarrow> string \<Rightarrow> string list \<Rightarrow> Comment list" where
  "fetchMoreCommentsFast env tag postID commentIDs =
     (let validIDs = map (\<lambda>x. TrimPrefix x ''t1_'') (filter (\<lambda>x. x \<noteq> ''continue'') commentIDs)
      in if length validIDs = 0 then []
         else fetchBatches env tag postID 0 (batchesOf100 validIDs))"

text \<open>
  One round's dispatch and graft.  The workers only read the task's ids, so fetching a
  task's comments right before grafting them gives the tree that fetching everything
  first and grafting in the order of \<open>Index\<close> gives.  A task with no ids is not sent.
\<close>

fun placeResults ::
  "'j collaborators \<Rightarrow> string \<Rightarrow> nat \<Rightarrow> nat \<Rightarrow> MoreCommentSet list \<Rightarrow>
   PostDetail \<times> int \<Rightarrow> PostDetail \<times> int" where
  "placeResults env postID iteration index [] acc = acc"
| "placeResults env postID iteration index (task # rest) (detail, iterationCount) =
     (if length (CommentIDs task) = 0
      then placeResults env postID iteration (index + 1) rest (detail, iterationCount)
      else
        (let comments = fetchMoreCommentsFast env (iteration, index) postID (CommentIDs task)
         in if length comments > 0
            then placeResults env postID iteration (index + 1) rest
                   (placeComments (sliceCap env iteration index) detail task comments,
                    iterationCount + int (length comments))
            else placeResults env postID iteration (index + 1) rest (detail, iterationCount)))"

record expansion =
  x_detail :: PostDetail
  x_remainingIDs :: int
  x_stuckCount :: int
  x_expandedCount :: int
  x_tick :: nat

text \<open>
  The rounds of \<open>expandCommentsFast\<close>; the first argument is \<open>maxIterations - iteration\<close>.
\<close>

fun expandRounds ::
  "'j collaborators \<Rightarrow> string \<Rightarrow> nat \<Rightarrow> nat \<Rightarrow> expansion \<Rightarrow> expansion" where
  "expandRounds env postID 0 iteration x = x"
| "expandRounds env postID (Suc left) iteration x =
     (let (moreSets, tick') = findMoreComments (ctxErr env ''post'') (x_tick x) (x_detail x)
      in if length moreSets = 0 then x\<lparr>x_tick := tick'\<rparr>
         else
           (let newRemainingIDs = sum_list (map (\<lambda>t. int (length (CommentIDs t))) moreSets);
                stuck = (newRemainingIDs = x_remainingIDs x \<and> newRemainingIDs > 0);
                stuckCount = (if stuck then x_stuckCount x + 1 else 0)
            in if stuck \<and> stuckCount \<ge> 3 then x\<lparr>x_stuckCount := stuckCount, x_tick := tick'\<rparr>
               else
                 (let (detail', iterationCount) =
                        placeResults env postID iteration 0 (take 15 moreSets) (x_detail x, 0)
                  in expandRounds env postID left (iteration + 1)
                       \<lparr>x_detail = detail', x_remainingIDs = newRemainingIDs,
                        x_stuckCount = stuckCount,
                        x_expandedCount = x_expandedCount x + iterationCount,
                        x_tick = tick'\<rparr>)))"

definition expandCommentsFast ::
  "'j collaborators \<Rightarrow> string \<Rightarrow> PostDetail \<Rightarrow> int \<times> PostDetail" where
  "expandCommentsFast env postID detail =
     (let x = expandRounds env postID 60 0
                \<lparr>x_detail = detail, x_remainingIDs = 0, x_stuckCount = 0,
                 x_expandedCount = 0, x_tick = 0\<rparr>;
          (removed, detail') = cleanupMoreComments (x_detail x)
      in (x_expandedCount x, detail'))"

definition fetchInitialPost ::
  "'j collaborators \<Rightarrow> string \<Rightarrow> error + PostDetail" where
  "fetchInitialPost env postID =
     (case FetchJSON env 0 (GetPostURL env postID) of
        Inl e \<Rightarrow> Inl (Wrap ''fetch post JSON'' e)
      | Inr data \<Rightarrow>
          (case unmarshalArray env data of
             None \<Rightarrow> Inl (Failure ''invalid post JSON format'')
           | Some raw \<Rightarrow>
               if length raw < 2 then Inl (Failure ''invalid post JSON format'')
               else ParsePost env (raw ! 0) (raw ! 1)))"

definition ScrapePost ::
  "'j collaborators \<Rightarrow> string \<Rightarrow> error + PostDetail" where
  "ScrapePost env postID =
     (case fetchInitialPost env postID of
        Inl e \<Rightarrow> Inl e
      | Inr detail \<Rightarrow> Inr (snd (expandCommentsFast env postID detail)))"

section \<open>Pagination walkers (internal/scraper/service.go)\<close>

text \<open>
  Go's \<open>int\<close> is taken to be 64 bits wide.  Integer division truncates towards zero
  (\<open>quot\<close>); the one sum that can leave the 64-bit range, in \<open>Search\<close>, is wrapped
  (\<open>wrap64\<close>).  Every other quantity stays far inside the range.
\<close>

definition quot :: "int \<Rightarrow> int \<Rightarrow> int" where
  "quot a b = sgn a * sgn b * (\<bar>a\<bar> div \<bar>b\<bar>)"

definition wrap64 :: "int \<Rightarrow> int" where
  "wrap64 x = (x + 2 ^ 63) mod 2 ^ 64 - 2 ^ 63"

definition second :: int where
  "second = 1000000000"

text \<open>How a page loop is left: by a \<open>return\<close>, or by \<open>break\<close> or its loop condition.\<close>

datatype 'a exit = Returned "'a list" "error option" | Broke "'a list"

fun exitItems :: "'a exit \<Rightarrow> 'a list" where
  "exitItems (Returned items err) = items"
| "exitItems (Broke items) = items"

text \<open>The cut \<open>posts = posts[:limit]\<close> after the loop of \<open>ScrapeSubreddit\<close> and \<open>Search\<close>.\<close>

definition applyLimit :: "int \<Rightarrow> 'a list \<Rightarrow> 'a list" where
  "applyLimit limit posts =
     (if limit > 0 \<and> int (length posts) > limit then take (nat limit) posts else posts)"

text \<open>
  The filter loop over one page in \<open>ScrapeSubreddit\<close> and \<open>Search\<close>; the state is the
  result list, \<open>pagePostCount\<close> and \<open>reachedTimeLimit\<close>.
\<close>

fun sinceLoop ::
  "int \<Rightarrow> ('a \<Rightarrow> int) \<Rightarrow> 'a list \<Rightarrow> 'a list \<times> int \<times> bool \<Rightarrow> 'a list \<times> int \<times> bool" where
  "sinceLoop sinceTimestamp created [] acc = acc"
| "sinceLoop sinceTimestamp created (post # rest) (posts, pagePostCount, reachedTimeLimit) =
     (if sinceTimestamp > 0 \<and> created post < sinceTimestamp
      then sinceLoop sinceTimestamp created rest (posts, pagePostCount, True)
      else sinceLoop sinceTimestamp created rest
             (posts @ [post], pagePostCount + 1, reachedTimeLimit))"

text \<open>
  The same loop in \<open>fetchUserPosts\<close> and \<open>fetchUserComments\<close>, which returns from the
  function (\<open>Inl\<close>) as soon as the limit is reached.
\<close>

fun sinceLimitLoop ::
  "int \<Rightarrow> int \<Rightarrow> ('a \<Rightarrow> int) \<Rightarrow> 'a list \<Rightarrow> 'a list \<times> int \<times> bool \<Rightarrow>
   'a list + 'a list \<times> int \<times> bool" where
  "sinceLimitLoop sinceTimestamp effectiveLimit created [] acc = Inr acc"
| "sinceLimitLoop sinceTimestamp effectiveLimit created (post # rest)
     (posts, pagePostCount, reachedTimeLimit) =
     (if sinceTimestamp > 0 \<and> created post < sinceTimestamp
      then sinceLimitLoop sinceTimestamp effectiveLimit created rest (posts, pagePostCount, True)
      else if effectiveLimit > 0 \<and> int (length (posts @ [post])) \<ge> effectiveLimit
      then Inl (posts @ [post])
      else sinceLimitLoop sinceTimestamp effectiveLimit created rest
             (posts @ [post], pagePostCount + 1, reachedTimeLimit))"

text \<open>
  The page loop of \<open>ScrapeSubreddit\<close>.  The first numeric argument is
  \<open>maxPages - pageCount\<close>; \<open>urls\<close> records every URL handed to \<open>FetchJSON\<close>, in order.
\<close>

fun subredditPages ::
  "'j collaborators \<Rightarrow> string \<Rightarrow> int \<Rightarrow> int \<Rightarrow> int \<Rightarrow> nat \<Rightarrow> nat \<Rightarrow> string \<Rightarrow> Post list \<Rightarrow>
   string list \<Rightarrow> string list \<times> Post exit" where
  "subredditPages env subreddit sinceTimestamp limit apiLimit 0 pageCount after posts urls =
     (urls, Broke posts)"
| "subredditPages env subreddit sinceTimestamp limit apiLimit (Suc left) pageCount after posts urls =
     (if ctxErr env ''subreddit'' pageCount then (urls, Returned posts (Some CtxErr))
      else
        (let apiURL = GetSubredditURL env subreddit apiLimit after
         in case FetchJSON env pageCount apiURL of
              Inl e \<Rightarrow> (urls @ [apiURL], Returned [] (Some (Wrap ''fetch subreddit'' e)))
            | Inr data \<Rightarrow>
                (case ParseSubreddit env data of
                   Inl e \<Rightarrow> (urls @ [apiURL], Returned [] (Some (Wrap ''parse subreddit'' e)))
                 | Inr (pagePosts, nextAfter) \<Rightarrow>
                     (let (posts', pagePostCount, reachedTimeLimit) =
                            sinceLoop sinceTimestamp P_CreatedAt pagePosts (posts, 0, False);
                          timeoutDuration = (if limit = -1 then 3 * 60 * second else 30 * second)
                      in if limit > 0 \<and> int (length posts') \<ge> limit then (urls @ [apiURL], Broke posts')
                         else if reachedTimeLimit then (urls @ [apiURL], Broke posts')
                         else if nextAfter = [] \<or> pagePostCount = 0 then (urls @ [apiURL], Broke posts')
                         else if elapsed env ''subreddit'' pageCount > timeoutDuration
                                 \<and> length posts' > 0
                         then (urls @ [apiURL], Broke posts')
                         else subredditPages env subreddit sinceTimestamp limit apiLimit left
                                (pageCount + 1) nextAfter posts' (urls @ [apiURL])))))"

text \<open>
  \<open>ScrapeSubreddit\<close> returns the requested URLs, the posts and the error (\<open>None\<close> for
  \<open>nil\<close>); Go returns the last two.
\<close>

definition ScrapeSubreddit ::
  "'j collaborators \<Rightarrow> string \<Rightarrow> int \<Rightarrow> int \<Rightarrow> string list \<times> Post list \<times> error option" where
  "ScrapeSubreddit env subreddit sinceTimestamp limit =
     (if sinceTimestamp = 0 \<and> limit = 0 then
        (let apiURL = GetSubredditURL env subreddit 0 []
         in case FetchJSON env 0 apiURL of
              Inl e \<Rightarrow> ([apiURL], [], Some (Wrap ''fetch subreddit'' e))
            | Inr data \<Rightarrow>
                (case ParseSubreddit env data of
                   Inl e \<Rightarrow> ([apiURL], [], Some (Wrap ''parse subreddit'' e))
                 | Inr (pagePosts, nextAfter) \<Rightarrow> ([apiURL], pagePosts, None)))
      else
        (let apiLimit = (if limit > 0 \<and> limit < 100 then limit else 100);
             maxPages = (if limit = -1 then 1000 else 20);
             maxPages' = (if sinceTimestamp > 0 \<and> limit \<noteq> -1 then 20 else maxPages)
         in case subredditPages env subreddit sinceTimestamp limit apiLimit (nat maxPages') 0 [] [] [] of
              (urls, Returned posts err) \<Rightarrow> (urls, posts, err)
            | (urls, Broke posts) \<Rightarrow>
                (urls, applyLimit limit posts, None)))"

text \<open>
  The page loop shared, word for word, by \<open>fetchUserPosts\<close> and \<open>fetchUserComments\<close>;
  they differ in the URL constructor, the parser and the messages.
\<close>

fun userPages ::
  "'j collaborators \<Rightarrow> string \<Rightarrow> (string \<Rightarrow> string) \<Rightarrow> ('j \<Rightarrow> error + 'a list \<times> string) \<Rightarrow>
   ('a \<Rightarrow> int) \<Rightarrow> int \<Rightarrow> int \<Rightarrow> bool \<Rightarrow> nat \<Rightarrow> nat \<Rightarrow> string \<Rightarrow> 'a list \<Rightarrow> 'a exit" where
  "userPages env what getURL parse created sinceTimestamp effectiveLimit needMultiplePages
     0 pageCount after items = Broke items"
| "userPages env what getURL parse created sinceTimestamp effectiveLimit needMultiplePages
     (Suc left) pageCount after items =
     (if ctxErr env what pageCount then Returned [] (Some CtxErr)
      else
        (case FetchJSON env pageCount (getURL after) of
           Inl e \<Rightarrow> Returned [] (Some (Wrap (''fetch user '' @ what) e))
         | Inr data \<Rightarrow>
             (case parse data of
                Inl e \<Rightarrow> Returned [] (Some (Wrap (''parse user '' @ what) e))
              | Inr (pageItems, nextAfter) \<Rightarrow>
                  (case sinceLimitLoop sinceTimestamp effectiveLimit created pageItems
                          (items, 0, False) of
                     Inl items' \<Rightarrow> Returned items' None
                   | Inr (items', pageItemCount, reachedTimeLimit) \<Rightarrow>
                       (let timeoutDuration =
                              (if effectiveLimit = -1 then 5 * 60 * second else 2 * 60 * second)
                        in if reachedTimeLimit \<and> sinceTimestamp > 0 then Broke items'
                           else if \<not> needMultiplePages then Broke items'
                           else if nextAfter = [] \<or> pageItemCount = 0 then Broke items'
                           else if elapsed env what pageCount > timeoutDuration
                                   \<and> length items' > 0
                           then Broke items'
                           else userPages env what getURL parse created sinceTimestamp
                                  effectiveLimit needMultiplePages left (pageCount + 1)
                                  nextAfter items')))))"

text \<open>The \<open>switch\<close> on \<open>limit\<close>: \<open>(needMultiplePages, maxPages, effectiveLimit)\<close>.\<close>

definition userPlan :: "int \<Rightarrow> int \<Rightarrow> bool \<times> int \<times> int" where
  "userPlan sinceTimestamp limit =
     (if limit = 0 then (False, 1, 0)
      else if limit = -1 then (True, if sinceTimestamp > 0 then 1000 else 500, -1)
      else (limit > 25 \<or> sinceTimestamp > 0,
            (let maxPages = (quot limit 25 + 1) * 2 in if maxPages > 50 then 50 else maxPages),
            limit))"

definition fetchUser ::
  "'j collaborators \<Rightarrow> string \<Rightarrow> (string \<Rightarrow> string) \<Rightarrow> ('j \<Rightarrow> error + 'a list \<times> string) \<Rightarrow>
   ('a \<Rightarrow> int) \<Rightarrow> int \<Rightarrow> int \<Rightarrow> 'a list \<times> error option" where
  "fetchUser env what getURL parse created sinceTimestamp limit =
     (let (needMultiplePages, maxPages, effectiveLimit) = userPlan sinceTimestamp limit
      in case userPages env what getURL parse created sinceTimestamp effectiveLimit
                needMultiplePages (nat maxPages) 0 [] [] of
           Returned items err \<Rightarrow> (items, err)
         | Broke items \<Rightarrow> (items, None))"

definition fetchUserPosts ::
  "'j collaborators \<Rightarrow> string \<Rightarrow> int \<Rightarrow> int \<Rightarrow> UserPost list \<times> error option" where
  "fetchUserPosts env username sinceTimestamp limit =
     fetchUser env ''posts'' (GetUserPostsURL env username) (ParseUserPosts env)
       UP_CreatedAt sinceTimestamp limit"

definition fetchUserComments ::
  "'j collaborators \<Rightarrow> string \<Rightarrow> int \<Rightarrow> int \<Rightarrow> UserComment list \<times> error option" where
  "fetchUserComments env username sinceTimestamp limit =
     fetchUser env ''comments'' (GetUserCommentsURL env username) (ParseUserComments env)
       UC_CreatedAt sinceTimestamp limit"

definition emptyActivity :: UserActivity where
  "emptyActivity =
     \<lparr>UserInfo = \<lparr>Username = [], LinkKarma = 0, CommentKarma = 0, UI_CreatedAt = 0\<rparr>,
      Posts = [], ActivityComments = []\<rparr>"

text \<open>
  \<open>ScrapeUserActivity\<close>.  The two walkers run in goroutines that share nothing but the
  collaborators; their results are looked at only after both have finished, the
  posts' error first.
\<close>

definition ScrapeUserActivity ::
  "'j collaborators \<Rightarrow> string \<Rightarrow> int \<Rightarrow> int \<Rightarrow> int \<Rightarrow> UserActivity \<times> error option" where
  "ScrapeUserActivity env username sinceTimestamp postLimit commentLimit =
     (case FetchJSON env 0 (GetUserAboutURL env username) of
        Inl e \<Rightarrow> (emptyActivity, Some (Wrap ''fetch user info'' e))
      | Inr aboutData \<Rightarrow>
          (case ParseUserInfo env aboutData of
             Inl e \<Rightarrow> (emptyActivity, Some (Wrap ''parse user info'' e))
           | Inr userInfo \<Rightarrow>
               (let activity = emptyActivity\<lparr>UserInfo := userInfo\<rparr>;
                    (posts, postsErr) = fetchUserPosts env username sinceTimestamp postLimit;
                    (comments, commentsErr) =
                      fetchUserComments env username sinceTimestamp commentLimit
                in case postsErr of
                     Some e \<Rightarrow> (activity, Some (Wrap ''fetch user posts'' e))
                   | None \<Rightarrow>
                       (case commentsErr of
                          Some e \<Rightarrow> (activity, Some (Wrap ''fetch user comments'' e))
                        | None \<Rightarrow>
                            (activity\<lparr>Posts := posts, ActivityComments := comments\<rparr>, None)))))"

text \<open>\<open>strconv.Itoa\<close>.\<close>

fun digits :: "nat \<Rightarrow> string" where
  "digits n = (if n < 10 then [''0123456789'' ! n]
               else digits (n div 10) @ [''0123456789'' ! (n mod 10)])"

definition Itoa :: "int \<Rightarrow> string" where
  "Itoa i = (if i < 0 then ''-'' @ digits (nat (- i)) else digits (nat i))"

text \<open>
  The page loop of \<open>Search\<close>.  The map \<open>searchParams\<close> is mutated in place, so it is part
  of the loop state.
\<close>

fun searchPages ::
  "'j collaborators \<Rightarrow> int \<Rightarrow> int \<Rightarrow> nat \<Rightarrow> nat \<Rightarrow> string \<Rightarrow> (string \<rightharpoonup> string) \<Rightarrow> Post list \<Rightarrow>
   Post exit" where
  "searchPages env sinceTimestamp limit 0 pageCount after searchParams posts = Broke posts"
| "searchPages env sinceTimestamp limit (Suc left) pageCount after searchParams posts =
     (if ctxErr env ''search'' pageCount then Returned posts (Some CtxErr)
      else
        (let searchParams' = (if after \<noteq> [] then searchParams(''after'' \<mapsto> after)
                              else searchParams(''after'' := None))
         in case FetchJSON env pageCount (GetSearchURL env searchParams') of
              Inl e \<Rightarrow> Returned [] (Some (Wrap ''fetch search results'' e))
            | Inr data \<Rightarrow>
                (case ParseSubreddit env data of
                   Inl e \<Rightarrow> Returned [] (Some (Wrap ''parse search results'' e))
                 | Inr (pagePosts, nextAfter) \<Rightarrow>
                     (let (posts', pagePostCount, reachedTimeLimit) =
                            sinceLoop sinceTimestamp P_CreatedAt pagePosts (posts, 0, False);
                          timeoutDuration = (if limit = -1 then 3 * 60 * second else 60 * second)
                      in if limit > 0 \<and> int (length posts') \<ge> limit then Broke posts'
                         else if reachedTimeLimit \<and> sinceTimestamp > 0 then Broke posts'
                         else if nextAfter = [] \<or> pagePostCount = 0 then Broke posts'
                         else if elapsed env ''search'' pageCount > timeoutDuration
                                 \<and> length posts' > 0
                         then Broke posts'
                         else searchPages env sinceTimestamp limit left (pageCount + 1)
                                nextAfter searchParams' posts'))))"

definition Search ::
  "'j collaborators \<Rightarrow> (string \<rightharpoonup> string) \<Rightarrow> int \<Rightarrow> int \<Rightarrow> Post list \<times> error option" where
  "Search env searchParams sinceTimestamp limit0 =
     (let limit = (if limit0 = -1 \<and> sinceTimestamp = 0 then 1000 else limit0);
          apiLimit = (if limit > 0 \<and> limit < 100 then limit else 100);
          searchParams' = searchParams(''limit'' \<mapsto> Itoa apiLimit);
          maxPages = (if limit = -1 \<and> sinceTimestamp > 0 then 1000
                      else if limit > 0 then quot (wrap64 (limit + apiLimit - 1)) apiLimit * 2
                      else 10)
      in case searchPages env sinceTimestamp limit (nat maxPages) 0 [] searchParams' [] of
           Returned posts err \<Rightarrow> (posts, err)
         | Broke posts \<Rightarrow>
             (applyLimit limit posts, None))"

text \<open>
  \<open>RedditClient.GetSubredditURL\<close> (internal/client/reddit\_client.go).  \<open>url.Values.Encode\<close>
  sorts by key and escapes keys and values with \<open>url.QueryEscape\<close>, a parameter here.
\<close>

fun joinWith :: "string \<Rightarrow> string list \<Rightarrow> string" where
  "joinWith sep [] = []"
| "joinWith sep [x] = x"
| "joinWith sep (x # y # ys) = x @ sep @ joinWith sep (y # ys)"

definition GetSubredditURL_client ::
  "(string \<Rightarrow> string) \<Rightarrow> string \<Rightarrow> string \<Rightarrow> int \<Rightarrow> string \<Rightarrow> string" where
  "GetSubredditURL_client queryEscape baseURL subreddit limit after =
     (let base = baseURL @ ''/r/'' @ subreddit @ ''/new.json?raw_json=1'';
          paramsStr = joinWith ''&''
            ((if after \<noteq> [] then [queryEscape ''after'' @ ''='' @ queryEscape after] else []) @
             (if limit > 0 then [queryEscape ''limit'' @ ''='' @ queryEscape (Itoa limit)] else []))
      in if paramsStr \<noteq> [] then base @ ''&'' @ paramsStr else base)"

section \<open>Payload decoder (internal/parser/parser.go)\<close>

text \<open>
  \<open>models.RawChild\<close> after \<open>json.Unmarshal\<close>.  \<open>created_utc\<close> is a \<open>float64\<close> that the
  decoder only ever reads through \<open>int64(...)\<close>; the field holds that integer.  The
  field \<open>replies\<close> is a \<open>json.RawMessage\<close> that the decoder tests for emptiness and then
  unmarshals into a listing: it is \<open>Absent\<close> (no bytes), \<open>Undecodable\<close> (bytes that do
  not unmarshal into the listing struct, such as the empty JSON string the upstream
  sends for a comment without replies) or \<open>Listing\<close> with the listing's children.
\<close>

datatype RawChild = RawChild
  (Kind: string) (D_ID: string) (D_Author: string) (D_Body: string) (D_Score: int)
  (D_CreatedUTC: int) (D_Replies: RawReplies) (D_Children: "string list")
  (D_ParentID: string) (D_Count: int) (D_Permalink: string)
and RawReplies = Absent | Undecodable | Listing "RawChild list"

text \<open>The second loop of the \<open>t1\<close> branch, over \<open>replies.Data.Children\<close>.\<close>

fun checkMore :: "RawChild list \<Rightarrow> bool \<times> string list \<Rightarrow> bool \<times> string list" where
  "checkMore [] acc = acc"
| "checkMore (replyChild # rest) (hasMore, moreIDs) =
     (if Kind replyChild = ''more'' \<and> length (D_Children replyChild) > 0
      then checkMore rest (True, moreIDs @ D_Children replyChild)
      else checkMore rest (hasMore, moreIDs))"

text \<open>
  \<open>processComments\<close>.  \<open>cancelled n\<close> is the outcome of the \<open>n\<close>-th \<open>ctx.Err() != nil\<close>
  check and \<open>uuid k\<close> the string of the \<open>k\<close>-th \<open>uuid.New()\<close>; the state counts both.
  On cancellation the comments gathered so far are returned, which in the recursive
  form is the empty rest.
\<close>

fun processComments ::
  "(nat \<Rightarrow> bool) \<Rightarrow> (nat \<Rightarrow> string) \<Rightarrow> RawChild list \<Rightarrow> nat \<times> nat \<Rightarrow> Comment list \<times> nat \<times> nat" where
  "processComments cancelled uuid [] st = ([], st)"
| "processComments cancelled uuid (RawChild kind i a b s t reps children parentID cnt pl # rest) (tick, k) =
     (if cancelled tick then ([], (tick + 1, k))
      else if kind = ''t1'' then
        (let (replies, hasMore, moreIDs, st1) =
               (case reps of
                  Absent \<Rightarrow> ([], False, [], (tick + 1, k))
                | Undecodable \<Rightarrow> ([], False, [], (tick + 1, k))
                | Listing replyChildren \<Rightarrow>
                    (let (rs, st') = processComments cancelled uuid replyChildren (tick + 1, k);
                         (hm, mids) = checkMore replyChildren (False, [])
                     in (rs, hm, mids, st')));
             (comments, st2) = processComments cancelled uuid rest st1
         in (Comment i a b s t replies False moreIDs hasMore 0 # comments, st2))
      else if kind = ''more'' then
        (if length children > 0 then
           (if ''continue'' \<notin> set children then
              (let (comments, st2) = processComments cancelled uuid rest (tick + 1, k + 1)
               in (Comment (''more_'' @ uuid k) [] [] 0 zeroTime [] True children False 0 # comments, st2))
            else
              (let (comments, st2) = processComments cancelled uuid rest (tick + 1, k + 1)
               in (Comment (''continue_'' @ uuid k) [] [] 0 zeroTime [] True [parentID] True 0 # comments,
                   st2)))
         else processComments cancelled uuid rest (tick + 1, k))
      else processComments cancelled uuid rest (tick + 1, k))"

text \<open>A child of the listing \<open>ParseUserComments\<close> unmarshals into.\<close>

record RawUserComment =
  RC_Kind :: string
  RC_ID :: string
  RC_Body :: string
  RC_Author :: string
  RC_Score :: int
  RC_CreatedUTC :: int
  RC_Subreddit :: string
  RC_LinkID :: string
  RC_LinkTitle :: string
  RC_ParentID :: string

fun userCommentsLoop :: "RawUserComment list \<Rightarrow> UserComment list \<Rightarrow> UserComment list" where
  "userCommentsLoop [] comments = comments"
| "userCommentsLoop (child # rest) comments =
     (if RC_Kind child \<noteq> ''t1'' then userCommentsLoop rest comments
      else
        (let postID = RC_LinkID child;
             postID' = (if length postID > 3 then drop 3 postID else postID)
         in userCommentsLoop rest
              (comments @ [\<lparr>UC_ID = RC_ID child, UC_Body = RC_Body child,
                            UC_Score = RC_Score child, UC_CreatedAt = RC_CreatedUTC child,
                            UC_Subreddit = RC_Subreddit child, UC_PostID = postID',
                            UC_PostTitle = RC_LinkTitle child, UC_ParentAuthor = []\<rparr>])))"

text \<open>
  \<open>ParseUserComments\<close> on the outcome of \<open>json.Unmarshal\<close>: \<open>None\<close> when it fails,
  otherwise the listing's children and its \<open>after\<close> cursor.
\<close>

definition ParseUserComments_impl ::
  "(RawUserComment list \<times> string) option \<Rightarrow> error + UserComment list \<times> string" where
  "ParseUserComments_impl listing =
     (case listing of
        None \<Rightarrow> Inl (Wrap ''parse user comments JSON'' (Upstream ''json''))
      | Some (children, after) \<Rightarrow> Inr (userCommentsLoop children [], after))"

section \<open>Search parameters (internal/handler/http/search\_handler.go)\<close>

text \<open>
  The request is the function \<open>c.QueryParam\<close>, which yields the empty string for a
  parameter that is not there; \<open>lookup\<close> is the read \<open>params[k]\<close> of a Go map.

  \<open>strings.Fields\<close> and \<open>strings.TrimSpace\<close> cut at the runes for which
  \<open>unicode.IsSpace\<close> holds.  A Go string is a byte sequence that these functions read
  as UTF-8; a byte that does not begin a valid encoding is read as the rune U+FFFD of
  width one, which is no white space.  \<open>spaceRunes\<close> lists the UTF-8 encodings of the
  white-space runes: the six of ASCII, U+0085, U+00A0, U+1680, U+2000 to U+200A,
  U+2028, U+2029, U+202F, U+205F and U+3000.  Each encoding begins with a byte that is
  no continuation byte and goes on with continuation bytes only, so a decoder that
  walks the string forwards (\<open>Fields\<close>, the left side of \<open>TrimSpace\<close>) or backwards (the
  right side of \<open>TrimSpace\<close>) meets a white-space rune exactly where one of these
  encodings lies.
\<close>

definition lookup :: "(string \<rightharpoonup> string) \<Rightarrow> string \<Rightarrow> string" where
  "lookup params k = (case params k of None \<Rightarrow> [] | Some v \<Rightarrow> v)"

definition spaceRunes :: "string list" where
  "spaceRunes =
     [[CHR 0x09], [CHR 0x0A], [CHR 0x0B], [CHR 0x0C], [CHR 0x0D], [CHR 0x20],
      [CHR 0xC2, CHR 0x85], [CHR 0xC2, CHR 0xA0],
      [CHR 0xE1, CHR 0x9A, CHR 0x80],
      [CHR 0xE2, CHR 0x80, CHR 0x80], [CHR 0xE2, CHR 0x80, CHR 0x81],
      [CHR 0xE2, CHR 0x80, CHR 0x82], [CHR 0xE2, CHR 0x80, CHR 0x83],
      [CHR 0xE2, CHR 0x80, CHR 0x84], [CHR 0xE2, CHR 0x80, CHR 0x85],
      [CHR 0xE2, CHR 0x80, CHR 0x86], [CHR 0xE2, CHR 0x80, CHR 0x87],
      [CHR 0xE2, CHR 0x80, CHR 0x88], [CHR 0xE2, CHR 0x80, CHR 0x89],
      [CHR 0xE2, CHR 0x80, CHR 0x8A],
      [CHR 0xE2, CHR 0x80, CHR 0xA8], [CHR 0xE2, CHR 0x80, CHR 0xA9],
      [CHR 0xE2, CHR 0x80, CHR 0xAF],
      [CHR 0xE2, CHR 0x81, CHR 0x9F],
      [CHR 0xE3, CHR 0x80, CHR 0x80]]"

text \<open>
  The width in bytes of the white-space rune at the start of a string, and of the one
  at its end; \<open>0\<close> when the rune there is no white space.
\<close>

definition spaceWidth :: "string \<Rightarrow> nat" where
  "spaceWidth s =
     (case find (\<lambda>p. take (length p) s = p) spaceRunes of None \<Rightarrow> 0 | Some p \<Rightarrow> length p)"

definition lastSpaceWidth :: "string \<Rightarrow> nat" where
  "lastSpaceWidth s =
     (case find (\<lambda>p. length p \<le> length s \<and> drop (length s - length p) s = p) spaceRunes of
        None \<Rightarrow> 0
      | Some p \<Rightarrow> length p)"

text \<open>
  \<open>strings.Fields\<close>: the maximal runs of runes that are no white space; \<open>cur\<close> is the
  field being read.
\<close>

function fieldsLoop :: "string \<Rightarrow> string \<Rightarrow> string list" where
  "fieldsLoop [] cur = (if cur = [] then [] else [cur])"
| "fieldsLoop (c # cs) cur =
     (if spaceWidth (c # cs) > 0 then
        (if cur = [] then fieldsLoop (drop (spaceWidth (c # cs) - 1) cs) []
         else cur # fieldsLoop (drop (spaceWidth (c # cs) - 1) cs) [])
      else fieldsLoop cs (cur @ [c]))"
  by pat_completeness auto
termination
  by (relation "measure (\<lambda>(s, cur). length s)") auto

definition Fields :: "string \<Rightarrow> string list" where
  "Fields s = fieldsLoop s []"

text \<open>
  \<open>strings.TrimSpace\<close>: the white-space runes at the start are cut off, then those at
  the end.
\<close>

function trimLeft :: "string \<Rightarrow> string" where
  "trimLeft s = (if s \<noteq> [] \<and> spaceWidth s > 0 then trimLeft (drop (spaceWidth s) s) else s)"
  by pat_completeness auto
termination
  by (relation "measure length") auto

function trimRight :: "string \<Rightarrow> string" where
  "trimRight s = (if s \<noteq> [] \<and> lastSpaceWidth s > 0
                  then trimRight (take (length s - lastSpaceWidth s) s) else s)"
  by pat_completeness auto
termination
  by (relation "measure length") auto

definition TrimSpace :: "string \<Rightarrow> string" where
  "TrimSpace s = trimRight (trimLeft s)"

text \<open>\<open>strings.SplitN(part, ":", 2)\<close> of a string that contains a colon.\<close>

definition splitColon :: "string \<Rightarrow> string \<times> string" where
  "splitColon part =
     (takeWhile (\<lambda>c. c \<noteq> CHR '':'') part, tl (dropWhile (\<lambda>c. c \<noteq> CHR '':'') part))"

definition qualifiedFields :: "string list" where
  "qualifiedFields = [''subreddit'', ''author'', ''site'', ''url'', ''selftext'', ''self'', ''nsfw'']"

definition advancedParams :: "string list" where
  "advancedParams = [''subreddit'', ''author'', ''site'', ''url'', ''selftext'', ''self'', ''nsfw'',
     ''restrict_sr'']"

text \<open>The body of the loop over the parts of \<open>compound_query\<close>.\<close>

definition compoundPart :: "string \<Rightarrow> (string \<rightharpoonup> string) \<Rightarrow> (string \<rightharpoonup> string)" where
  "compoundPart part params =
     (if CHR '':'' \<in> set part then
        (let (k, v) = splitColon part; key = TrimSpace k; val = TrimSpace v
         in if key \<in> set qualifiedFields then params(key \<mapsto> val) else params)
      else if lookup params ''search_string'' = [] then params(''search_string'' \<mapsto> part)
      else params(''search_string'' \<mapsto> lookup params ''search_string'' @ '' '' @ part))"

text \<open>Everything \<open>buildSearchParams\<close> does before it looks at \<open>compound_query\<close>.\<close>

definition plainParams :: "(string \<Rightarrow> string) \<Rightarrow> (string \<rightharpoonup> string)" where
  "plainParams query =
     (let p1 = (if query ''search_string'' \<noteq> [] then [''search_string'' \<mapsto> query ''search_string'']
                else Map.empty);
          p2 = (if query ''after'' \<noteq> [] then p1(''after'' \<mapsto> query ''after'') else p1);
          p3 = (if query ''before'' \<noteq> [] then p2(''before'' \<mapsto> query ''before'') else p2);
          p4 = (if query ''sort'' \<noteq> [] then p3(''sort'' \<mapsto> query ''sort'')
                else p3(''sort'' \<mapsto> ''relevance''));
          p5 = (if query ''time'' \<noteq> [] then p4(''time'' \<mapsto> query ''time'')
                else p4(''time'' \<mapsto> ''all''));
          p6 = (if query ''limit'' \<noteq> [] then p5(''limit'' \<mapsto> query ''limit'')
                else p5(''limit'' \<mapsto> ''25''))
      in fold (\<lambda>param params. if query param \<noteq> [] then params(param \<mapsto> query param) else params)
           advancedParams p6)"

definition buildSearchParams :: "(string \<Rightarrow> string) \<Rightarrow> (string \<rightharpoonup> string)" where
  "buildSearchParams query =
     (let params = plainParams query; compoundQuery = query ''compound_query''
      in if compoundQuery \<noteq> [] then fold compoundPart (Fields compoundQuery) params
         else params)"

text \<open>
  What the parts of a compound query amount to: \<open>plainParts\<close> are the parts without a
  colon, \<open>valuesFor key\<close> the values of the parts \<open>key:value\<close>, in order.
\<close>

definition plainParts :: "string list \<Rightarrow> string list" where
  "plainParts parts = filter (\<lambda>part. CHR '':'' \<notin> set part) parts"

definition valuesFor :: "string \<Rightarrow> string list \<Rightarrow> string list" where
  "valuesFor key parts =
     map (\<lambda>part. snd (splitColon part))
       (filter (\<lambda>part. CHR '':'' \<in> set part \<and> fst (splitColon part) = key) parts)"

section \<open>Proxy rotator and double-gzip detection (pkg/utils, quoted in README.md)\<close>

datatype panic = IndexOutOfRange | DivideByZero

record 'u ProxyRotator =
  parsedURLs :: "'u list"
  currentIdx :: "32 word"

text \<open>
  \<open>atomic.AddUint32\<close> returns the new value of the counter.  \<open>uint32(len(...))\<close> keeps
  the low 32 bits of the length; the remainder by zero is a run-time panic.
\<close>

definition NextProxy :: "'u ProxyRotator \<Rightarrow> panic + 'u option \<times> 'u ProxyRotator" where
  "NextProxy r =
     (if length (parsedURLs r) = 0 then Inr (None, r)
      else
        (let new = currentIdx r + 1;
             n = (word_of_nat (length (parsedURLs r)) :: 32 word)
         in if n = 0 then Inl DivideByZero
            else Inr (Some (parsedURLs r ! unat (new mod n)), r\<lparr>currentIdx := new\<rparr>)))"

definition GetProxyForID :: "'u ProxyRotator \<Rightarrow> 32 word \<Rightarrow> panic + 'u option" where
  "GetProxyForID r ident =
     (if length (parsedURLs r) = 0 then Inr None
      else
        (let n = (word_of_nat (length (parsedURLs r)) :: 32 word)
         in if n = 0 then Inl DivideByZero
            else Inr (Some (parsedURLs r ! unat (ident mod n)))))"

text \<open>A bounds-checked read \<open>bodyBytes[i]\<close>.\<close>

definition byteAt :: "8 word list \<Rightarrow> nat \<Rightarrow> panic + 8 word" where
  "byteAt bodyBytes i = (if i < length bodyBytes then Inr (bodyBytes ! i) else Inl IndexOutOfRange)"

text \<open>
  The condition \<open>len(bodyBytes) > 0 && bodyBytes[0] == 0x1f && bodyBytes[1] == 0x8b\<close> of
  \<open>RetryableClient.Do\<close>, evaluated left to right with short-circuit.
\<close>

definition doubleGzipCheck :: "8 word list \<Rightarrow> panic + bool" where
  "doubleGzipCheck bodyBytes =
     (if length bodyBytes > 0 then
        (case byteAt bodyBytes 0 of
           Inl p \<Rightarrow> Inl p
         | Inr b0 \<Rightarrow>
             if b0 = 0x1f then
               (case byteAt bodyBytes 1 of Inl p \<Rightarrow> Inl p | Inr b1 \<Rightarrow> Inr (b1 = 0x8b))
             else Inr False)
      else Inr False)"

text \<open>
  The step of \<open>Do\<close> around it: a body that looks gzipped is decompressed once more
  (\<open>gunzip\<close> is \<open>gzip.NewReader\<close> followed by \<open>io.ReadAll\<close>, \<open>None\<close> when either fails).
\<close>

definition doubleGzipPass ::
  "(8 word list \<Rightarrow> 8 word list option) \<Rightarrow> 8 word list \<Rightarrow> panic + 8 word list" where
  "doubleGzipPass gunzip bodyBytes =
     (case doubleGzipCheck bodyBytes of
        Inl p \<Rightarrow> Inl p
      | Inr False \<Rightarrow> Inr bodyBytes
      | Inr True \<Rightarrow> (case gunzip bodyBytes of None \<Rightarrow> Inr bodyBytes | Some u \<Rightarrow> Inr u))"

section \<open>Predicates and example values\<close>

text \<open>Every list of the forest, the root list and every reply list, has distinct ids.\<close>

fun distinctIDs :: "Comment list \<Rightarrow> bool" where
  "distinctIDs [] = True"
| "distinctIDs (Comment i a b s t reps m ids h n # cs) =
     (i \<notin> set (map ID cs) \<and> distinctIDs reps \<and> distinctIDs cs)"

text \<open>Builders for example values: a plain comment and a placeholder.\<close>

definition plainComment :: "string \<Rightarrow> int \<Rightarrow> Comment list \<Rightarrow> Comment" where
  "plainComment i t reps = Comment i ''user'' ''text'' 1 t reps False [] False 0"

definition morePlaceholder :: "string \<Rightarrow> string list \<Rightarrow> Comment" where
  "morePlaceholder i ids = Comment i [] [] 0 zeroTime [] True ids False 0"

definition examplePost :: Post where
  "examplePost = \<lparr>P_ID = ''abc123'', P_Title = ''title'', P_Body = ''body'',
     P_Author = ''testuser'', P_Score = 1, P_CreatedAt = 1620000000, P_Flair = [],
     P_URL = ''https://old.reddit.com/r/test/comments/abc123''\<rparr>"


text \<open>
  Collaborators for a post whose root list is a comment and a placeholder for two
  more; the load-more request yields those two.  Raw messages are numbers here.
\<close>

definition threadEnv :: "nat collaborators" where
  "threadEnv =
     \<lparr>ctxErr = (\<lambda>w n. False), elapsed = (\<lambda>w n. 0), sliceCap = (\<lambda>r i. 2),
      unmarshalArray = (\<lambda>j. Some [1, 2]),
      FetchJSON = (\<lambda>n url. Inr 0),
      FetchMoreComments = (\<lambda>tag postID ids. Inr 3),
      GetSubredditURL = (\<lambda>sr l a. []), GetUserAboutURL = (\<lambda>u. []),
      GetUserPostsURL = (\<lambda>u a. []), GetUserCommentsURL = (\<lambda>u a. []),
      GetPostURL = (\<lambda>i. ''/comments/'' @ i @ ''.json''), GetSearchURL = (\<lambda>m. []),
      ParseSubreddit = (\<lambda>j. Inr ([], [])), ParseUserInfo = (\<lambda>j. Inl (Failure ''none'')),
      ParseUserPosts = (\<lambda>j. Inr ([], [])), ParseUserComments = (\<lambda>j. Inr ([], [])),
      ParsePost = (\<lambda>p c. Inr \<lparr>Post = examplePost,
                     Comments = [plainComment ''c1'' 9 [],
                                 morePlaceholder ''more_1'' [''m1'', ''m2'']]\<rparr>),
      ParseMoreComments = (\<lambda>j. Inr [plainComment ''m1'' 8 [], plainComment ''m2'' 7 []])\<rparr>"

text \<open>A listing of user comments with link ids of several shapes.\<close>

definition rawUserComment :: "string \<Rightarrow> string \<Rightarrow> RawUserComment" where
  "rawUserComment kind link =
     \<lparr>RC_Kind = kind, RC_ID = ''c'', RC_Body = ''b'', RC_Author = ''a'', RC_Score = 1,
      RC_CreatedUTC = 100, RC_Subreddit = ''golang'', RC_LinkID = link, RC_LinkTitle = ''t'',
      RC_ParentID = ''t3_x''\<rparr>"

definition userCommentListing :: "RawUserComment list" where
  "userCommentListing =
     [rawUserComment ''t1'' ''t3_abc123'', rawUserComment ''t1'' ''t1_abc123'',
      rawUserComment ''t3'' ''t3_skipped'', rawUserComment ''t1'' ''t3_'',
      rawUserComment ''t1'' [], rawUserComment ''t1'' ''abcd'']"

text \<open>A fresh rotator over three proxies.\<close>

definition threeProxies :: "string ProxyRotator" where
  "threeProxies = \<lparr>parsedURLs = [''p0'', ''p1'', ''p2''], currentIdx = 0\<rparr>"

text \<open>
  Collaborators for listings: the \<open>n\<close>-th request yields page \<open>n\<close>, and the pages run
  from new to old.  The URL constructor of the subreddit listing is the client's own.
\<close>

definition post :: "string \<Rightarrow> int \<Rightarrow> Post" where
  "post i t = \<lparr>P_ID = i, P_Title = ''title'', P_Body = ''body'', P_Author = ''testuser'',
     P_Score = 1, P_CreatedAt = t, P_Flair = [], P_URL = ''https://reddit.com/r/golang/'' @ i\<rparr>"

definition userPost :: "string \<Rightarrow> int \<Rightarrow> UserPost" where
  "userPost i t = \<lparr>UP_ID = i, UP_Title = ''title'', UP_Body = ''body'', UP_Score = 1,
     UP_CreatedAt = t, UP_Subreddit = ''golang'', UP_URL = ''https://reddit.com/r/golang/'' @ i,
     UP_Flair = []\<rparr>"

definition userComment :: "string \<Rightarrow> int \<Rightarrow> UserComment" where
  "userComment i t = \<lparr>UC_ID = i, UC_Body = ''body'', UC_Score = 1, UC_CreatedAt = t,
     UC_Subreddit = ''golang'', UC_PostID = ''abc123'', UC_PostTitle = ''title'',
     UC_ParentAuthor = []\<rparr>"

definition pagedEnv :: "nat collaborators" where
  "pagedEnv =
     \<lparr>ctxErr = (\<lambda>w n. False), elapsed = (\<lambda>w n. 0), sliceCap = (\<lambda>r i. 0),
      unmarshalArray = (\<lambda>j. None),
      FetchJSON = (\<lambda>n url. Inr n),
      FetchMoreComments = (\<lambda>tag postID ids. Inl (Upstream ''unused'')),
      GetSubredditURL = GetSubredditURL_client (\<lambda>s. s) ''https://old.reddit.com'',
      GetUserAboutURL = (\<lambda>u. ''/user/'' @ u @ ''/about.json''),
      GetUserPostsURL = (\<lambda>u a. ''/user/'' @ u @ ''/submitted/new.json?after='' @ a),
      GetUserCommentsURL = (\<lambda>u a. ''/user/'' @ u @ ''/comments/.json?after='' @ a),
      GetPostURL = (\<lambda>i. []),
      GetSearchURL = (\<lambda>m. ''/search.json?after='' @ lookup m ''after''),
      ParseSubreddit = (\<lambda>j. if j = 0 then Inr ([post ''p1'' 300, post ''p2'' 200], ''t3_p2'')
                           else if j = 1 then Inr ([post ''p3'' 150, post ''p4'' 50], ''t3_p4'')
                           else Inr ([post ''p5'' 40], [])),
      ParseUserInfo = (\<lambda>j. Inr \<lparr>Username = ''tester'', LinkKarma = 1, CommentKarma = 2,
                                 UI_CreatedAt = 10\<rparr>),
      ParseUserPosts = (\<lambda>j. if j = 0 then Inr ([userPost ''u1'' 300, userPost ''u2'' 90], ''t3_u2'')
                           else Inr ([userPost ''u3'' 80], [])),
      ParseUserComments = (\<lambda>j. if j = 0 then Inr ([userComment ''k1'' 500], ''t1_k1'')
                              else Inr ([userComment ''k2'' 400, userComment ''k3'' 99], [])),
      ParsePost = (\<lambda>p c. Inl (Failure ''unused'')),
      ParseMoreComments = (\<lambda>j. Inr [])\<rparr>"

text \<open>
  What the two loops of the \<open>t1\<close> branch make of the \<open>more\<close> nodes among the children of
  \<open>replies\<close>: \<open>moreNodes\<close> are the nodes the second loop counts, and \<open>placeholderOf u r\<close> is
  the comment the \<open>more\<close> branch of \<open>processComments\<close> emits for node \<open>r\<close> when \<open>u\<close> is the
  fresh UUID.
\<close>

definition moreNodes :: "RawChild list \<Rightarrow> RawChild list" where
  "moreNodes replyChildren =
     filter (\<lambda>r. Kind r = ''more'' \<and> length (D_Children r) > 0) replyChildren"

definition placeholderOf :: "string \<Rightarrow> RawChild \<Rightarrow> Comment" where
  "placeholderOf u r =
     (if ''continue'' \<notin> set (D_Children r)
      then Comment (''more_'' @ u) [] [] 0 zeroTime [] True (D_Children r) False 0
      else Comment (''continue_'' @ u) [] [] 0 zeroTime [] True [D_ParentID r] True 0)"

text \<open>
  A decoded comment listing: the root comment \<open>c1\<close> has a reply \<open>c2\<close> and a \<open>more\<close> node
  for two further replies.  \<open>uuidSupply\<close> stands for the UUID generator.
\<close>

definition uuidSupply :: "nat \<Rightarrow> string" where
  "uuidSupply k = ''uuid-'' @ digits k"

definition rawThread :: "RawChild list" where
  "rawThread =
     [RawChild ''t1'' ''c1'' ''commenter'' ''This is a comment'' 3 1620000000
        (Listing [RawChild ''t1'' ''c2'' ''other'' ''a reply'' 1 1620000100 Undecodable [] ''t1_c1'' 0 [],
                  RawChild ''more'' ''m'' [] [] 0 0 Absent [''a'', ''b''] ''t1_c1'' 2 []])
        [] ''t3_abc123'' 0 []]"

text \<open>
  \<open>noSpaceIn cur rest\<close>: no white-space rune begins inside \<open>cur\<close> when \<open>rest\<close> follows it.
  A field is not empty and has no white-space rune in it.
\<close>

fun noSpaceIn :: "string \<Rightarrow> string \<Rightarrow> bool" where
  "noSpaceIn [] rest = True"
| "noSpaceIn (c # cs) rest = (spaceWidth (c # cs @ rest) = 0 \<and> noSpaceIn cs rest)"

definition isField :: "string \<Rightarrow> bool" where
  "isField part = (part \<noteq> [] \<and> noSpaceIn part [])"

text \<open>A request that carries nothing but a compound query.\<close>

definition compoundOnly :: "string \<Rightarrow> string" where
  "compoundOnly k = (if k = ''compound_query'' then ''foo:bar baz subreddit:golang  qux'' else [])"

text \<open>
  A request whose compound query is \<open>cats\<close>, a no-break space (U+00A0, the bytes
  \<open>C2 A0\<close>), \<open>dogs\<close>, an ideographic space (U+3000, the bytes \<open>E3 80 80\<close>) and
  \<open>author:bob\<close>.
\<close>

definition unicodeSpaces :: "string \<Rightarrow> string" where
  "unicodeSpaces k =
     (if k = ''compound_query''
      then ''cats'' @ [CHR 0xC2, CHR 0xA0] @ ''dogs'' @ [CHR 0xE3, CHR 0x80, CHR 0x80] @ ''author:bob''
      else [])"

text \<open>
  A root list that ends in a placeholder whose child ids name a comment that is
  already in the list, the expansion task for it, and the batch the load-more request
  brings back.
\<close>

definition siblingThread :: PostDetail where
  "siblingThread =
     \<lparr>Post = examplePost,
      Comments = [plainComment ''c1'' 9 [], morePlaceholder ''more_1'' [''m1'', ''c1'']]\<rparr>"

definition siblingTask :: MoreCommentSet where
  "siblingTask = \<lparr>Parent = ''abc123'', CommentIDs = [''m1'', ''c1''], Depth = 0,
     PlaceholderID = ''more_1''\<rparr>"

definition siblingBatch :: "Comment list" where
  "siblingBatch = [plainComment ''m1'' 8 [], plainComment ''c1'' 9 []]"

text \<open>
  A root list in which the placeholder is followed by another comment, and a batch of
  two comments fetched for it.
\<close>

definition tailThread :: PostDetail where
  "tailThread =
     \<lparr>Post = examplePost,
      Comments = [plainComment ''c1'' 9 [], morePlaceholder ''more_1'' [''x'', ''y''],
                  plainComment ''c2'' 5 []]\<rparr>"

definition tailTask :: MoreCommentSet where
  "tailTask = \<lparr>Parent = ''abc123'', CommentIDs = [''x'', ''y''], Depth = 0,
     PlaceholderID = ''more_1''\<rparr>"

definition tailBatch :: "Comment list" where
  "tailBatch = [plainComment ''x'' 8 [], plainComment ''y'' 7 []]"

section \<open>The sweep: lemmas\<close>

lemma filterComments_sweepAll: "snd (filterComments cs) = sweepAll cs"
proof (induction cs rule: sweepAll.induct)
  case 1
  show ?case by simp
next
  case (2 i a b s t reps m ids h n cs)
  show ?case
  proof (cases m)
    case True
    with 2 have "snd (filterComments cs) = sweepAll cs" by simp
    with True show ?thesis by (auto split: prod.splits)
  next
    case False
    with 2 have "snd (filterComments reps) = sweepAll reps" "snd (filterComments cs) = sweepAll cs"
      by simp_all
    moreover have "reps = [] \<Longrightarrow> sweepAll reps = reps" by simp
    ultimately show ?thesis using False
      by (auto split: prod.splits)
  qed
qed

lemma placeholderFree_sweepAll: "placeholderFree (sweepAll cs)"
  by (induction cs rule: sweepAll.induct) auto

lemma sweepAll_idem: "placeholderFree cs \<Longrightarrow> sweepAll cs = cs"
  by (induction cs rule: placeholderFree.induct) auto

lemma cleanupReplies_id: "placeholderFree cs \<Longrightarrow> snd (cleanupReplies cs) = cs"
proof (induction cs)
  case Nil
  then show ?case by simp
next
  case (Cons c cs)
  obtain i a b s t reps m ids h n where c: "c = Comment i a b s t reps m ids h n"
    by (cases c)
  from Cons.prems c have pf: "\<not> m" "placeholderFree reps" "placeholderFree cs"
    by simp_all
  have "snd (filterComments reps) = reps"
    using pf(2) by (simp add: filterComments_sweepAll sweepAll_idem)
  with Cons.IH pf c show ?case
    by (auto split: prod.splits)
qed

lemma cleanupMoreComments_sweepAll:
  "Comments (snd (cleanupMoreComments detail)) = sweepAll (Comments detail)"
proof (cases "Comments detail")
  case Nil
  then show ?thesis by (simp add: cleanupMoreComments_def)
next
  case (Cons c cs)
  have "snd (cleanupReplies (snd (filterComments (Comments detail)))) = sweepAll (Comments detail)"
    by (simp add: filterComments_sweepAll cleanupReplies_id placeholderFree_sweepAll)
  with Cons show ?thesis
    by (auto simp: cleanupMoreComments_def split: prod.splits)
qed

section \<open>C1: a scraped post holds no placeholder\<close>

text \<open>
  C1.  \<open>ScrapePost\<close> hands back what \<open>expandCommentsFast\<close> leaves in the detail, and the
  last thing \<open>expandCommentsFast\<close> does, however its rounds ended, is
  \<open>cleanupMoreComments\<close>.  So whenever \<open>ScrapePost\<close> returns without an error, no comment
  of the returned forest, at any depth, has \<open>IsMore\<close> set.
\<close>

theorem ScrapePost_no_placeholder:
  "ScrapePost env postID = Inr detail \<Longrightarrow> placeholderFree (Comments detail)"
proof -
  assume ok: "ScrapePost env postID = Inr detail"
  then obtain d0 where "detail = snd (expandCommentsFast env postID d0)"
    by (auto simp: ScrapePost_def split: sum.splits)
  then have "detail = snd (cleanupMoreComments (x_detail (expandRounds env postID 60 0
      \<lparr>x_detail = d0, x_remainingIDs = 0, x_stuckCount = 0, x_expandedCount = 0, x_tick = 0\<rparr>)))"
    by (simp add: expandCommentsFast_def Let_def split: prod.splits)
  then show ?thesis
    by (simp add: cleanupMoreComments_sweepAll placeholderFree_sweepAll)
qed

theorem ScrapePost_no_placeholder_witness:
  "ScrapePost threadEnv ''abc123'' =
     Inr \<lparr>Post = examplePost,
          Comments = [plainComment ''c1'' 9 [], plainComment ''m1'' 8 [], plainComment ''m2'' 7 []]\<rparr>
   \<and> placeholderFree [plainComment ''c1'' 9 [], plainComment ''m1'' 8 [], plainComment ''m2'' 7 []]"
proof -
  have run: "ScrapePost threadEnv ''abc123'' =
     Inr \<lparr>Post = examplePost,
          Comments = [plainComment ''c1'' 9 [], plainComment ''m1'' 8 [], plainComment ''m2'' 7 []]\<rparr>"
    by code_simp
  from ScrapePost_no_placeholder [OF run] run show ?thesis by simp
qed

section \<open>C2: the final sweep reaches every depth\<close>




section \<open>C8: proxy selection\<close>

text \<open>
  C8, as the code has it.  For a rotator holding \<open>N\<close> proxies, \<open>0 < N < 2^32\<close>, with
  counter value \<open>c\<close>: \<open>NextProxy\<close> increments the counter first (modulo \<open>2^32\<close>) and
  returns the proxy at index \<open>(c + 1) mod N\<close>, the new counter value modulo \<open>N\<close>;
  \<open>GetProxyForID\<close> returns the proxy at index \<open>id mod N\<close> and does not touch the counter.
\<close>

theorem rotator_selection:
  assumes "0 < length (parsedURLs r)" and "length (parsedURLs r) < 2 ^ 32"
  shows "NextProxy r =
           Inr (Some (parsedURLs r ! (unat (currentIdx r + 1) mod length (parsedURLs r))),
                r\<lparr>currentIdx := currentIdx r + 1\<rparr>)
         \<and> unat (currentIdx r + 1) = (unat (currentIdx r) + 1) mod 2 ^ 32
         \<and> GetProxyForID r ident =
           Inr (Some (parsedURLs r ! (unat ident mod length (parsedURLs r))))"
proof -
  let ?n = "word_of_nat (length (parsedURLs r)) :: 32 word"
  have un: "unat ?n = length (parsedURLs r)"
    using assms(2) by (simp add: unat_of_nat)
  with assms(1) have nz: "?n \<noteq> 0"
    by (metis less_numeral_extra(3) unat_0)
  have m: "unat (w mod ?n) = unat w mod length (parsedURLs r)" for w :: "32 word"
    by (simp add: unat_mod un)
  have w: "unat (currentIdx r + 1) = (unat (currentIdx r) + 1) mod 2 ^ 32"
    by (simp add: unat_word_ariths)
  show ?thesis
    using assms(1) nz m w by (simp add: NextProxy_def GetProxyForID_def Let_def)
qed

theorem rotator_selection_witness:
  "NextProxy threeProxies = Inr (Some ''p1'', threeProxies\<lparr>currentIdx := 1\<rparr>)
   \<and> GetProxyForID threeProxies 7 = Inr (Some ''p1'')"
  using rotator_selection [of threeProxies 7]
  by (simp add: threeProxies_def)

text \<open>
  The claim as stated fails on a fresh rotator: with counter \<open>0\<close> the first \<open>NextProxy\<close>
  returns the proxy at index \<open>1\<close>, not the one at index \<open>0 mod 3\<close>.
\<close>

theorem next_proxy_counterexample:
  "NextProxy threeProxies = Inr (Some ''p1'', threeProxies\<lparr>currentIdx := 1\<rparr>)
   \<and> parsedURLs threeProxies ! (unat (currentIdx threeProxies) mod 3) = ''p0''"
  by (simp add: threeProxies_def NextProxy_def)

section \<open>C9: the double-gzip check reads past a one-byte body\<close>

text \<open>
  C9.  The check is guarded by \<open>len(bodyBytes) > 0\<close> only.  For every body of exactly one
  byte the guard holds and index \<open>1\<close> is out of range; the read of \<open>bodyBytes[1]\<close> is
  reached when the first byte is \<open>0x1f\<close>, so the check, and with it the step of \<open>Do\<close>
  around it, panics on the body \<open>[0x1f]\<close> (and on no other body).
\<close>

theorem double_gzip_index_out_of_range:
  "(length bodyBytes = 1 \<longrightarrow> 0 < length bodyBytes \<and> byteAt bodyBytes 1 = Inl IndexOutOfRange)
   \<and> (doubleGzipCheck bodyBytes = Inl IndexOutOfRange \<longleftrightarrow> bodyBytes = [0x1f])
   \<and> (doubleGzipPass gunzip bodyBytes = Inl IndexOutOfRange \<longleftrightarrow> bodyBytes = [0x1f])"
proof -
  have a: "doubleGzipCheck bodyBytes = Inl IndexOutOfRange \<longleftrightarrow> bodyBytes = [0x1f]"
  proof (cases bodyBytes)
    case Nil
    then show ?thesis by (simp add: doubleGzipCheck_def)
  next
    case (Cons b bs)
    then show ?thesis
      by (cases bs) (auto simp: doubleGzipCheck_def byteAt_def)
  qed
  have b: "doubleGzipPass gunzip bodyBytes = Inl IndexOutOfRange \<longleftrightarrow>
           doubleGzipCheck bodyBytes = Inl IndexOutOfRange"
    by (auto simp: doubleGzipPass_def split: sum.splits bool.splits option.splits)
  show ?thesis using a b by (simp add: byteAt_def)
qed

theorem double_gzip_index_out_of_range_witness:
  "length [0x1f :: 8 word] = 1 \<and> byteAt [0x1f] 1 = Inl IndexOutOfRange
   \<and> doubleGzipCheck [0x1f] = Inl IndexOutOfRange
   \<and> doubleGzipPass (\<lambda>b. None) [0x1f] = Inl IndexOutOfRange"
  using double_gzip_index_out_of_range [of "[0x1f]" "\<lambda>b. None"] by simp

section \<open>C10: the post id of a user comment\<close>

lemma userCommentsLoop_post_ids:
  "map UC_PostID (userCommentsLoop children acc) =
     map UC_PostID acc @
     map (\<lambda>child. if length (RC_LinkID child) > 3 then drop 3 (RC_LinkID child) else RC_LinkID child)
       (filter (\<lambda>child. RC_Kind child = ''t1'') children)"
  by (induction children arbitrary: acc) (simp_all add: Let_def)

text \<open>
  C10.  The post ids of the comments \<open>ParseUserComments\<close> returns are, in order, the
  link ids of the listing's \<open>t1\<close> children, each without its first three bytes when it
  is longer than three bytes and unchanged otherwise.  Nothing looks at what the three
  bytes are.
\<close>

theorem ParseUserComments_post_id:
  "ParseUserComments_impl (Some (children, after)) = Inr (comments, after') \<Longrightarrow>
   map UC_PostID comments =
     map (\<lambda>child. if length (RC_LinkID child) > 3 then drop 3 (RC_LinkID child) else RC_LinkID child)
       (filter (\<lambda>child. RC_Kind child = ''t1'') children)"
  by (auto simp: ParseUserComments_impl_def userCommentsLoop_post_ids)

theorem ParseUserComments_post_id_witness:
  "ParseUserComments_impl (Some (userCommentListing, ''t1_next'')) =
     Inr (userCommentsLoop userCommentListing [], ''t1_next'')
   \<and> map UC_PostID (userCommentsLoop userCommentListing []) =
     [''abc123'', ''abc123'', ''t3_'', [], ''d'']"
proof -
  have run: "ParseUserComments_impl (Some (userCommentListing, ''t1_next'')) =
     Inr (userCommentsLoop userCommentListing [], ''t1_next'')"
    by (simp add: ParseUserComments_impl_def)
  from ParseUserComments_post_id [OF run]
  have "map UC_PostID (userCommentsLoop userCommentListing []) =
     [''abc123'', ''abc123'', ''t3_'', [], ''d'']"
    by (simp add: userCommentListing_def rawUserComment_def)
  with run show ?thesis by simp
qed



section \<open>Walkers: what the time cutoff lets through\<close>

lemma sinceLoop_since:
  "0 < T \<Longrightarrow> list_all (\<lambda>p. T \<le> created p) posts \<Longrightarrow>
   list_all (\<lambda>p. T \<le> created p) (fst (sinceLoop T created page (posts, c, r)))"
  by (induction page arbitrary: posts c r) auto

lemma sinceLimitLoop_since:
  "0 < T \<Longrightarrow> list_all (\<lambda>p. T \<le> created p) posts \<Longrightarrow>
   (case sinceLimitLoop T eff created page (posts, c, r) of
      Inl items \<Rightarrow> list_all (\<lambda>p. T \<le> created p) items
    | Inr (items, c', r') \<Rightarrow> list_all (\<lambda>p. T \<le> created p) items)"
  by (induction page arbitrary: posts c r) auto

lemma applyLimit_since: "list_all P xs \<Longrightarrow> list_all P (applyLimit limit xs)"
  by (auto simp: applyLimit_def list_all_iff dest: in_set_takeD)

lemma subredditPages_since:
  "0 < T \<Longrightarrow> list_all (\<lambda>p. T \<le> P_CreatedAt p) posts \<Longrightarrow>
   list_all (\<lambda>p. T \<le> P_CreatedAt p)
     (exitItems (snd (subredditPages env sr T limit apiLimit left pageCount after posts urls)))"
proof (induction left arbitrary: pageCount after posts urls)
  case 0
  then show ?case by simp
next
  case (Suc left)
  show ?case
  proof (cases "ctxErr env ''subreddit'' pageCount")
    case True
    then show ?thesis using Suc.prems by simp
  next
    case nc: False
    show ?thesis
    proof (cases "FetchJSON env pageCount (GetSubredditURL env sr apiLimit after)")
      case (Inl e)
      then show ?thesis using nc by simp
    next
      case fetched: (Inr data)
      show ?thesis
      proof (cases "ParseSubreddit env data")
        case (Inl e)
        then show ?thesis using nc fetched by simp
      next
        case (Inr page)
        obtain pagePosts nextAfter where page: "page = (pagePosts, nextAfter)"
          by (cases page)
        obtain posts' c r where
          sl: "sinceLoop T P_CreatedAt pagePosts (posts, 0, False) = (posts', c, r)"
          by (cases "sinceLoop T P_CreatedAt pagePosts (posts, 0, False)")
        have good: "list_all (\<lambda>p. T \<le> P_CreatedAt p) posts'"
          using sinceLoop_since [OF Suc.prems, of pagePosts 0 False] sl by simp
        show ?thesis
          using nc fetched Inr page sl good Suc.IH [OF Suc.prems(1) good]
          by (simp add: Let_def)
      qed
    qed
  qed
qed

lemma exit_pair_since:
  "list_all P (exitItems (snd run)) \<Longrightarrow>
   list_all P (fst (snd (case run of
       (urls, Returned posts err) \<Rightarrow> (urls, posts, err)
     | (urls, Broke posts) \<Rightarrow> (urls, applyLimit limit posts, None))))"
  by (cases run; cases "snd run") (auto simp: applyLimit_since)

lemma exit_since:
  "list_all P (exitItems ex) \<Longrightarrow>
   list_all P (fst (case ex of
       Returned posts err \<Rightarrow> (posts, err)
     | Broke posts \<Rightarrow> (applyLimit limit posts, None)))"
  by (cases ex) (auto simp: applyLimit_since)

lemma exit_user_since:
  "list_all P (exitItems ex) \<Longrightarrow>
   list_all P (fst (case ex of Returned items err \<Rightarrow> (items, err) | Broke items \<Rightarrow> (items, None)))"
  by (cases ex) auto

lemma ScrapeSubreddit_since:
  assumes T: "0 < T"
  shows "list_all (\<lambda>p. T \<le> P_CreatedAt p) (fst (snd (ScrapeSubreddit env sr T limit)))"
proof -
  from T have ne: "\<not> (T = 0 \<and> limit = 0)" by simp
  show ?thesis
    unfolding ScrapeSubreddit_def Let_def if_not_P [OF ne]
    by (rule exit_pair_since) (rule subredditPages_since [OF T], simp)
qed

lemma searchPages_since:
  "0 < T \<Longrightarrow> list_all (\<lambda>p. T \<le> P_CreatedAt p) posts \<Longrightarrow>
   list_all (\<lambda>p. T \<le> P_CreatedAt p)
     (exitItems (searchPages env T limit left pageCount after params posts))"
proof (induction left arbitrary: pageCount after posts params)
  case 0
  then show ?case by simp
next
  case (Suc left)
  define params' where "params' = (if after \<noteq> [] then params(''after'' \<mapsto> after)
                              else params(''after'' := None))"
  show ?case
  proof (cases "ctxErr env ''search'' pageCount")
    case True
    then show ?thesis using Suc.prems by simp
  next
    case nc: False
    show ?thesis
    proof (cases "FetchJSON env pageCount (GetSearchURL env params')")
      case (Inl e)
      then show ?thesis using nc by (simp add: params'_def)
    next
      case fetched: (Inr data)
      show ?thesis
      proof (cases "ParseSubreddit env data")
        case (Inl e)
        then show ?thesis using nc fetched by (simp add: params'_def)
      next
        case (Inr page)
        obtain pagePosts nextAfter where page: "page = (pagePosts, nextAfter)"
          by (cases page)
        obtain posts' c r where
          sl: "sinceLoop T P_CreatedAt pagePosts (posts, 0, False) = (posts', c, r)"
          by (cases "sinceLoop T P_CreatedAt pagePosts (posts, 0, False)")
        have good: "list_all (\<lambda>p. T \<le> P_CreatedAt p) posts'"
          using sinceLoop_since [OF Suc.prems, of pagePosts 0 False] sl by simp
        show ?thesis
          using nc fetched Inr page sl good Suc.IH [OF Suc.prems(1) good]
          by (simp add: Let_def params'_def)
      qed
    qed
  qed
qed

lemma Search_since:
  assumes T: "0 < T"
  shows "list_all (\<lambda>p. T \<le> P_CreatedAt p) (fst (Search env params T limit))"
  unfolding Search_def Let_def
  by (rule exit_since) (rule searchPages_since [OF T], simp)

lemma userPages_since:
  "0 < T \<Longrightarrow> list_all (\<lambda>p. T \<le> created p) items \<Longrightarrow>
   list_all (\<lambda>p. T \<le> created p)
     (exitItems (userPages env what getURL parse created T eff multi left pageCount after items))"
proof (induction left arbitrary: pageCount after items)
  case 0
  then show ?case by simp
next
  case (Suc left)
  show ?case
  proof (cases "ctxErr env what pageCount")
    case True
    then show ?thesis by simp
  next
    case nc: False
    show ?thesis
    proof (cases "FetchJSON env pageCount (getURL after)")
      case (Inl e)
      then show ?thesis using nc by simp
    next
      case fetched: (Inr data)
      show ?thesis
      proof (cases "parse data")
        case (Inl e)
        then show ?thesis using nc fetched by simp
      next
        case (Inr page)
        obtain pageItems nextAfter where page: "page = (pageItems, nextAfter)"
          by (cases page)
        show ?thesis
        proof (cases "sinceLimitLoop T eff created pageItems (items, 0, False)")
          case (Inl items')
          with sinceLimitLoop_since [OF Suc.prems, of eff pageItems 0 False]
          show ?thesis using nc fetched Inr page by simp
        next
          case loop: (Inr st)
          obtain items' c r where st: "st = (items', c, r)"
            by (cases st)
          have good: "list_all (\<lambda>p. T \<le> created p) items'"
            using sinceLimitLoop_since [OF Suc.prems, of eff pageItems 0 False] loop st by simp
          show ?thesis
            using nc fetched Inr page loop st good Suc.IH [OF Suc.prems(1) good]
            by (auto simp: Let_def)
        qed
      qed
    qed
  qed
qed

lemma fetchUser_since:
  assumes T: "0 < T"
  shows "list_all (\<lambda>p. T \<le> created p) (fst (fetchUser env what getURL parse created T limit))"
proof -
  obtain multi m eff where plan: "userPlan T limit = (multi, m, eff)"
    by (cases "userPlan T limit")
  show ?thesis
    unfolding fetchUser_def plan Let_def prod.case
    by (rule exit_user_since) (rule userPages_since [OF T], simp)
qed

lemma ScrapeUserActivity_since:
  assumes T: "0 < T"
  shows "list_all (\<lambda>p. T \<le> UP_CreatedAt p) (Posts (fst (ScrapeUserActivity env u T pl cl)))"
    and "list_all (\<lambda>c. T \<le> UC_CreatedAt c)
           (ActivityComments (fst (ScrapeUserActivity env u T pl cl)))"
  using fetchUser_since [OF T, of UP_CreatedAt env "''posts''" "GetUserPostsURL env u"
          "ParseUserPosts env" pl]
        fetchUser_since [OF T, of UC_CreatedAt env "''comments''" "GetUserCommentsURL env u"
          "ParseUserComments env" cl]
  by (auto simp: ScrapeUserActivity_def fetchUserPosts_def fetchUserComments_def Let_def
        emptyActivity_def split: sum.splits prod.splits option.splits)


section \<open>C7: the time cutoff is a lower bound\<close>

text \<open>
  C7.  For every positive \<open>since_timestamp\<close> \<open>T\<close>, every post returned by
  \<open>ScrapeSubreddit\<close>, every post and every comment of the activity returned by
  \<open>ScrapeUserActivity\<close>, and every post returned by \<open>Search\<close> was created at an epoch
  second that is at least \<open>T\<close>; this holds for whatever the upstream answers, for every
  limit, and also for the partial results handed back together with an error.
\<close>

theorem since_timestamp_is_lower_bound:
  assumes "0 < T"
  shows "list_all (\<lambda>p. T \<le> P_CreatedAt p) (fst (snd (ScrapeSubreddit env sr T limit)))
       \<and> list_all (\<lambda>p. T \<le> UP_CreatedAt p) (Posts (fst (ScrapeUserActivity env u T pl cl)))
       \<and> list_all (\<lambda>c. T \<le> UC_CreatedAt c)
           (ActivityComments (fst (ScrapeUserActivity env u T pl cl)))
       \<and> list_all (\<lambda>p. T \<le> P_CreatedAt p) (fst (Search env params T slimit))"
  using assms
  by (simp add: ScrapeSubreddit_since ScrapeUserActivity_since Search_since)

theorem since_timestamp_is_lower_bound_witness:
  "map P_ID (fst (snd (ScrapeSubreddit pagedEnv ''golang'' 100 (- 1)))) = [''p1'', ''p2'', ''p3'']
   \<and> map UP_ID (Posts (fst (ScrapeUserActivity pagedEnv ''tester'' 100 10 10))) = [''u1'']
   \<and> map UC_ID (ActivityComments (fst (ScrapeUserActivity pagedEnv ''tester'' 100 10 10))) =
       [''k1'', ''k2'']
   \<and> map P_ID (fst (Search pagedEnv Map.empty 100 25)) = [''p1'', ''p2'', ''p3'']
   \<and> list_all (\<lambda>p. 100 \<le> P_CreatedAt p) (fst (snd (ScrapeSubreddit pagedEnv ''golang'' 100 (- 1))))
   \<and> list_all (\<lambda>p. 100 \<le> UP_CreatedAt p) (Posts (fst (ScrapeUserActivity pagedEnv ''tester'' 100 10 10)))
   \<and> list_all (\<lambda>c. 100 \<le> UC_CreatedAt c)
       (ActivityComments (fst (ScrapeUserActivity pagedEnv ''tester'' 100 10 10)))
   \<and> list_all (\<lambda>p. 100 \<le> P_CreatedAt p) (fst (Search pagedEnv Map.empty 100 25))"
proof -
  have a: "map P_ID (fst (snd (ScrapeSubreddit pagedEnv ''golang'' 100 (- 1)))) = [''p1'', ''p2'', ''p3'']"
    by code_simp
  have b: "map UP_ID (Posts (fst (ScrapeUserActivity pagedEnv ''tester'' 100 10 10))) = [''u1'']"
    by code_simp
  have c: "map UC_ID (ActivityComments (fst (ScrapeUserActivity pagedEnv ''tester'' 100 10 10))) =
       [''k1'', ''k2'']"
    by code_simp
  have d: "map P_ID (fst (Search pagedEnv Map.empty 100 25)) = [''p1'', ''p2'', ''p3'']"
    by code_simp
  have T: "(0::int) < 100" by simp
  from a b c d
    since_timestamp_is_lower_bound [OF T, of pagedEnv "''golang''" "- 1" "''tester''" 10 10 Map.empty 25]
  show ?thesis by simp
qed

section \<open>C5: limit 0 fetches one page when there is no time cutoff\<close>

text \<open>
  C5, as the code has it.  With \<open>limit = 0\<close> and \<open>since_timestamp = 0\<close>, \<open>ScrapeSubreddit\<close>
  makes exactly one request, for the URL \<open>GetSubredditURL(subreddit, 0, "")\<close>; the
  client builds that URL with neither a \<open>limit\<close> nor an \<open>after\<close> parameter, so the page
  has the upstream's default size and no cursor is followed; when the page is fetched
  and parsed, its posts are the result.
\<close>

theorem ScrapeSubreddit_first_page_only:
  "fst (ScrapeSubreddit env sr 0 0) = [GetSubredditURL env sr 0 []]
   \<and> GetSubredditURL_client queryEscape baseURL sr 0 [] = baseURL @ ''/r/'' @ sr @ ''/new.json?raw_json=1''
   \<and> (FetchJSON env 0 (GetSubredditURL env sr 0 []) = Inr data \<longrightarrow>
        ParseSubreddit env data = Inr (pagePosts, nextAfter) \<longrightarrow>
        snd (ScrapeSubreddit env sr 0 0) = (pagePosts, None))"
  by (auto simp: ScrapeSubreddit_def GetSubredditURL_client_def Let_def split: sum.splits)

theorem ScrapeSubreddit_first_page_only_witness:
  "ScrapeSubreddit pagedEnv ''golang'' 0 0 =
     ([''https://old.reddit.com/r/golang/new.json?raw_json=1''],
      [post ''p1'' 300, post ''p2'' 200], None)"
proof -
  have f: "FetchJSON pagedEnv 0 (GetSubredditURL pagedEnv ''golang'' 0 []) = Inr 0"
    by (simp add: pagedEnv_def)
  have p: "ParseSubreddit pagedEnv 0 = Inr ([post ''p1'' 300, post ''p2'' 200], ''t3_p2'')"
    by (simp add: pagedEnv_def)
  have u: "GetSubredditURL pagedEnv ''golang'' 0 [] =
    ''https://old.reddit.com/r/golang/new.json?raw_json=1''"
    by (simp add: pagedEnv_def GetSubredditURL_client_def)
  from ScrapeSubreddit_first_page_only [of pagedEnv "''golang''" "\<lambda>s. s" "''https://old.reddit.com''"
         0 "[post ''p1'' 300, post ''p2'' 200]" "''t3_p2''"] f p u
  show ?thesis by (simp add: prod_eq_iff)
qed

text \<open>
  The claim as stated fails when a time cutoff is given: with \<open>limit = 0\<close> and
  \<open>since_timestamp = 100\<close> the paged walk runs, asks for pages of 100 and follows the
  cursor of the first page.
\<close>

theorem limit0_with_since_walks_pages_counterexample:
  "fst (ScrapeSubreddit pagedEnv ''golang'' 100 0) =
     [''https://old.reddit.com/r/golang/new.json?raw_json=1&limit=100'',
      ''https://old.reddit.com/r/golang/new.json?raw_json=1&after=t3_p2&limit=100'']"
  by code_simp

section \<open>C4: a \<open>more\<close> node among the replies of a comment\<close>

lemma checkMore_eq:
  "checkMore rs (h, ids) =
     (h \<or> moreNodes rs \<noteq> [], ids @ concat (map D_Children (moreNodes rs)))"
  by (induction rs arbitrary: h ids) (auto simp: moreNodes_def)

lemma processComments_cons:
  assumes nc: "\<forall>n. \<not> cancelled n"
  shows "\<exists>pre st'. fst (processComments cancelled uuid (x # rs) st) =
                    pre @ fst (processComments cancelled uuid rs st')"
proof -
  obtain tick k where st: "st = (tick, k)" by (cases st)
  obtain kind i a b s t reps ch pid cnt pl where x: "x = RawChild kind i a b s t reps ch pid cnt pl"
    by (cases x)
  have A: "\<exists>pre a b. c # fst (processComments cancelled uuid rs s1) =
                     pre @ fst (processComments cancelled uuid rs (a, b))" for c s1
    by (rule exI [of _ "[c]"], rule exI [of _ "fst s1"], rule exI [of _ "snd s1"]) simp
  have B: "\<exists>pre a b. fst (processComments cancelled uuid rs s1) =
                     pre @ fst (processComments cancelled uuid rs (a, b))" for s1
    by (rule exI [of _ "[]"], rule exI [of _ "fst s1"], rule exI [of _ "snd s1"]) simp
  have C: "fst (case p of (comments, y) \<Rightarrow> (c # comments, y)) = c # fst p" for c and p :: "Comment list \<times> nat \<times> nat"
    by (cases p) simp
  show ?thesis
    unfolding x st using nc
    by (cases reps) (simp_all add: A B C Let_def split: prod.splits)
qed

lemma processComments_emits:
  assumes nc: "\<forall>n. \<not> cancelled n"
  shows "r \<in> set rs \<Longrightarrow> Kind r = ''more'' \<Longrightarrow> D_Children r \<noteq> [] \<Longrightarrow>
         \<exists>k. placeholderOf (uuid k) r \<in> set (fst (processComments cancelled uuid rs st))"
proof (induction rs arbitrary: st)
  case Nil
  then show ?case by simp
next
  case (Cons x rs)
  show ?case
  proof (cases "x = r")
    case True
    obtain tick k where st: "st = (tick, k)" by (cases st)
    obtain kind i a b s t reps ch pid cnt pl where x: "x = RawChild kind i a b s t reps ch pid cnt pl"
      by (cases x)
    from True Cons.prems x st nc show ?thesis
      by (auto simp: placeholderOf_def split: prod.splits)
  next
    case False
    with Cons.prems have "r \<in> set rs" by simp
    from Cons.IH [OF this Cons.prems(2,3)]
    have ih: "\<exists>k. placeholderOf (uuid k) r \<in> set (fst (processComments cancelled uuid rs st'))" for st'
      by blast
    from processComments_cons [OF nc, of uuid x rs st] obtain pre st' where
      "fst (processComments cancelled uuid (x # rs) st) = pre @ fst (processComments cancelled uuid rs st')"
      by blast
    with ih [of st'] show ?thesis by auto
  qed
qed

text \<open>
  C4, as the code has it.  When the decoder, with a context that is not cancelled,
  processes a \<open>t1\<close> comment whose replies contain a \<open>more\<close> node \<open>r\<close> with a non-empty child
  list, then the comment built for it is no placeholder, has \<open>HasMore\<close> set, and its
  \<open>MoreIDs\<close> are the child lists of all such nodes, in order, so they contain the
  children of \<open>r\<close>.  In addition the node \<open>r\<close> is emitted: the recursive call that
  decodes the replies puts the placeholder comment for \<open>r\<close> into the comment's
  \<open>Replies\<close>.
\<close>

theorem t1_more_node_counted_and_emitted:
  assumes "\<forall>n. \<not> cancelled n"
    and "r \<in> set replyChildren" and "Kind r = ''more''" and "D_Children r \<noteq> []"
  shows "\<exists>c cs k. fst (processComments cancelled uuid
                     (RawChild ''t1'' i a b s t (Listing replyChildren) ch pid cnt pl # rest) st) = c # cs
           \<and> ID c = i \<and> \<not> IsMore c \<and> HasMore c
           \<and> MoreIDs c = concat (map D_Children (moreNodes replyChildren))
           \<and> set (D_Children r) \<subseteq> set (MoreIDs c)
           \<and> placeholderOf (uuid k) r \<in> set (Replies c)
           \<and> IsMore (placeholderOf (uuid k) r)"
proof -
  obtain tick k0 where st: "st = (tick, k0)" by (cases st)
  from assms(2-4) have mn: "r \<in> set (moreNodes replyChildren)"
    by (simp add: moreNodes_def)
  from processComments_emits [OF assms(1) assms(2-4), of uuid "(tick + 1, k0)"]
  obtain k where k: "placeholderOf (uuid k) r \<in>
      set (fst (processComments cancelled uuid replyChildren (tick + 1, k0)))"
    by blast
  have pm: "IsMore (placeholderOf (uuid k) r)"
    by (simp add: placeholderOf_def)
  show ?thesis
    using assms(1) st mn k pm
    by (auto simp: checkMore_eq Let_def split: prod.splits)
qed

theorem t1_more_node_counted_and_emitted_witness:
  "fst (processComments (\<lambda>n. False) uuidSupply rawThread (0, 0)) =
     [Comment ''c1'' ''commenter'' ''This is a comment'' 3 1620000000
        [Comment ''c2'' ''other'' ''a reply'' 1 1620000100 [] False [] False 0,
         placeholderOf (uuidSupply 0) (RawChild ''more'' ''m'' [] [] 0 0 Absent [''a'', ''b''] ''t1_c1'' 2 [])]
        False [''a'', ''b''] True 0]"
proof -
  let ?r = "RawChild ''more'' ''m'' [] [] 0 0 Absent [''a'', ''b''] ''t1_c1'' 2 []"
  let ?rs = "[RawChild ''t1'' ''c2'' ''other'' ''a reply'' 1 1620000100 Undecodable [] ''t1_c1'' 0 [], ?r]"
  have h1: "\<forall>n. \<not> (\<lambda>n. False) n" by simp
  have h2: "?r \<in> set ?rs" by simp
  have h3: "Kind ?r = ''more''" by simp
  have h4: "D_Children ?r \<noteq> []" by simp
  note t1_more_node_counted_and_emitted [OF h1 h2 h3 h4]
  then show ?thesis
    by (simp add: rawThread_def placeholderOf_def)
qed

text \<open>
  The claim as stated fails on \<open>rawThread\<close>: the replies of \<open>c1\<close> hold, after the reply
  \<open>c2\<close>, a placeholder comment for the \<open>more\<close> node.
\<close>

theorem more_node_emitted_in_replies_counterexample:
  "Replies (hd (fst (processComments (\<lambda>n. False) uuidSupply rawThread (0, 0)))) =
     [Comment ''c2'' ''other'' ''a reply'' 1 1620000100 [] False [] False 0,
      Comment (''more_'' @ uuidSupply 0) [] [] 0 zeroTime [] True [''a'', ''b''] False 0]"
  by (simp add: rawThread_def)

section \<open>C3: ids after a graft\<close>

text \<open>
  The batch is freed of repeated ids, and the appending grafts add no comment whose id
  is in the list already.
\<close>

lemma uniqueBatch_distinct:
  "distinct (map ID (uniqueBatch idMap cs)) \<and> ID ` set (uniqueBatch idMap cs) \<inter> idMap = {}"
  by (induction cs arbitrary: idMap) (auto simp: image_iff)

lemma addWithoutDuplicates_distinct:
  "distinct (map ID existingComments) \<Longrightarrow> distinct (map ID newComments) \<Longrightarrow>
   distinct (map ID (addWithoutDuplicates existingComments newComments))"
  by (auto simp: addWithoutDuplicates_def distinct_map_filter)
     (metis image_eqI)

text \<open>The task the traversal finds in \<open>siblingThread\<close>.\<close>

lemma findMoreComments_siblingThread:
  "fst (findMoreComments (\<lambda>n. False) 0 siblingThread) = [siblingTask]"
  by (simp add: findMoreComments_def siblingThread_def siblingTask_def plainComment_def
        morePlaceholder_def examplePost_def sortSlice_def)

text \<open>
  C3.  The claim asks that after every graft every comment list has pairwise distinct
  ids.  The graft into a placeholder's position does not compare the batch with the
  comments already in the list: in \<open>siblingThread\<close> the root list and the batch both
  have distinct ids, and after \<open>placeComments\<close> the root list holds the id \<open>c1\<close> twice,
  whatever the capacity of the slice.
\<close>

theorem placeComments_repeats_sibling_id:
  "distinctIDs (Comments siblingThread) \<and> distinctIDs siblingBatch
   \<and> Comments (placeComments capacity siblingThread siblingTask siblingBatch) =
       [plainComment ''c1'' 9 [], plainComment ''c1'' 9 [], plainComment ''m1'' 8 []]
   \<and> \<not> distinctIDs (Comments (placeComments capacity siblingThread siblingTask siblingBatch))"
  by (simp add: placeComments_def siblingThread_def siblingTask_def siblingBatch_def
        plainComment_def morePlaceholder_def sortSlice_def replacePlaceholder_def splice_def)

text \<open>
  The same graft loses distinctness in a second way.  When the placeholder is not the
  last element and the batch fits into the slice, the inner \<open>append\<close> overwrites the
  elements behind the placeholder before the outer \<open>append\<close> copies them: the comment
  \<open>c2\<close> is lost and the batch's \<open>y\<close> is in the list twice.
\<close>

lemma placeComments_overwrites_tail:
  "distinctIDs (Comments tailThread) \<and> distinctIDs tailBatch
   \<and> Comments (placeComments capacity tailThread tailTask tailBatch) =
       [plainComment ''c1'' 9 [], plainComment ''x'' 8 [], plainComment ''y'' 7 [],
        plainComment ''y'' 7 []]"
  by (simp add: placeComments_def tailThread_def tailTask_def tailBatch_def
        plainComment_def morePlaceholder_def sortSlice_def replacePlaceholder_def splice_def)

section \<open>C6: the parts of a compound query\<close>

text \<open>
  White space: a string has no white-space rune at its start exactly when none of the
  encodings is a prefix of it, and the fields that \<open>Fields\<close> returns are not empty and
  hold no white-space rune, so \<open>TrimSpace\<close> leaves the key and the value of a part as
  they are.
\<close>

lemma spaceRunes_nonempty: "p \<in> set spaceRunes \<Longrightarrow> p \<noteq> []"
  by (auto simp: spaceRunes_def)

lemma spaceWidth_0_iff:
  "spaceWidth s = 0 \<longleftrightarrow> (\<forall>p \<in> set spaceRunes. take (length p) s \<noteq> p)"
proof (cases "find (\<lambda>p. take (length p) s = p) spaceRunes")
  case None
  then have "\<forall>p \<in> set spaceRunes. take (length p) s \<noteq> p"
    by (simp add: find_None_iff)
  with None show ?thesis by (simp add: spaceWidth_def)
next
  case (Some p)
  then have "p \<in> set spaceRunes" "take (length p) s = p"
    by (auto simp: find_Some_iff)
  with Some spaceRunes_nonempty [of p] show ?thesis
    by (auto simp: spaceWidth_def)
qed

lemma lastSpaceWidth_0_iff:
  "lastSpaceWidth s = 0 \<longleftrightarrow>
     (\<forall>p \<in> set spaceRunes. \<not> (length p \<le> length s \<and> drop (length s - length p) s = p))"
proof (cases "find (\<lambda>p. length p \<le> length s \<and> drop (length s - length p) s = p) spaceRunes")
  case None
  then have "\<forall>p \<in> set spaceRunes. \<not> (length p \<le> length s \<and> drop (length s - length p) s = p)"
    by (simp add: find_None_iff)
  with None show ?thesis by (simp add: lastSpaceWidth_def)
next
  case (Some p)
  then have "p \<in> set spaceRunes" "length p \<le> length s \<and> drop (length s - length p) s = p"
    by (auto simp: find_Some_iff)
  with Some spaceRunes_nonempty [of p] show ?thesis
    by (auto simp: lastSpaceWidth_def)
qed

lemma spaceWidth_append: "spaceWidth (s @ t) = 0 \<Longrightarrow> spaceWidth s = 0"
proof -
  assume a: "spaceWidth (s @ t) = 0"
  have "take (length p) s \<noteq> p" if p: "p \<in> set spaceRunes" for p
  proof
    assume e: "take (length p) s = p"
    then have "length (take (length p) s) = length p" by simp
    then have "length p \<le> length s" by simp
    with e have "take (length p) (s @ t) = p" by simp
    with a p show False by (simp add: spaceWidth_0_iff)
  qed
  then show ?thesis by (simp add: spaceWidth_0_iff)
qed

lemma noSpaceIn_weaken: "noSpaceIn cur rest \<Longrightarrow> noSpaceIn cur []"
proof (induction cur)
  case Nil
  then show ?case by simp
next
  case (Cons c cs)
  then have "spaceWidth ((c # cs) @ rest) = 0" by simp
  then have "spaceWidth (c # cs) = 0" by (rule spaceWidth_append)
  with Cons show ?case by simp
qed

lemma noSpaceIn_prefix: "noSpaceIn (s @ t) [] \<Longrightarrow> noSpaceIn s []"
proof (induction s)
  case Nil
  then show ?case by simp
next
  case (Cons c cs)
  then have "spaceWidth ((c # cs) @ t) = 0" by simp
  then have "spaceWidth (c # cs) = 0" by (rule spaceWidth_append)
  with Cons show ?case by simp
qed

lemma noSpaceIn_drop: "noSpaceIn s [] \<Longrightarrow> noSpaceIn (drop k s) []"
proof (induction s arbitrary: k)
  case Nil
  then show ?case by simp
next
  case (Cons c cs)
  then show ?case by (cases k) simp_all
qed

lemma noSpaceIn_snoc:
  "noSpaceIn cur (c # cs) \<Longrightarrow> spaceWidth (c # cs) = 0 \<Longrightarrow> noSpaceIn (cur @ [c]) cs"
  by (induction cur) simp_all

lemma fieldsLoop_fields: "noSpaceIn cur s \<Longrightarrow> list_all isField (fieldsLoop s cur)"
proof (induction s cur rule: fieldsLoop.induct)
  case (1 cur)
  then show ?case by (auto simp: isField_def)
next
  case (2 c cs cur)
  show ?case
  proof (cases "spaceWidth (c # cs) > 0")
    case True
    from "2.prems" have "noSpaceIn cur []" by (rule noSpaceIn_weaken)
    with True "2.IH"(1,2) show ?thesis by (auto simp: isField_def)
  next
    case False
    with "2.prems" have "noSpaceIn (cur @ [c]) cs" by (simp add: noSpaceIn_snoc)
    with False "2.IH"(3) show ?thesis by simp
  qed
qed

lemma Fields_fields: "list_all isField (Fields s)"
  by (simp add: Fields_def fieldsLoop_fields)

lemma TrimSpace_id: "noSpaceIn s [] \<Longrightarrow> TrimSpace s = s"
proof -
  assume a: "noSpaceIn s []"
  have l: "trimLeft s = s"
    using a by (cases s) simp_all
  have "lastSpaceWidth s = 0"
  proof -
    have "\<not> (length p \<le> length s \<and> drop (length s - length p) s = p)"
      if p: "p \<in> set spaceRunes" for p
    proof
      assume e: "length p \<le> length s \<and> drop (length s - length p) s = p"
      from a have "noSpaceIn (drop (length s - length p) s) []" by (rule noSpaceIn_drop)
      with e have "noSpaceIn p []" by simp
      moreover from p have "p \<noteq> []" by (rule spaceRunes_nonempty)
      ultimately have "spaceWidth p = 0" by (cases p) simp_all
      then have "\<forall>q \<in> set spaceRunes. take (length q) p \<noteq> q"
        by (simp only: spaceWidth_0_iff)
      with p have "take (length p) p \<noteq> p" by blast
      then show False by simp
    qed
    then show ?thesis by (simp add: lastSpaceWidth_0_iff)
  qed
  then have r: "trimRight s = s" by simp
  from l r show ?thesis by (simp add: TrimSpace_def)
qed

lemma splitColon_nospace:
  assumes "noSpaceIn part []"
  shows "noSpaceIn (fst (splitColon part)) []" and "noSpaceIn (snd (splitColon part)) []"
proof -
  have "noSpaceIn (takeWhile (\<lambda>c. c \<noteq> CHR '':'') part @ dropWhile (\<lambda>c. c \<noteq> CHR '':'') part) []"
    using assms by simp
  then show "noSpaceIn (fst (splitColon part)) []"
    unfolding splitColon_def fst_conv by (rule noSpaceIn_prefix)
  have "tl (dropWhile (\<lambda>c. c \<noteq> CHR '':'') part) =
        drop (Suc (length (takeWhile (\<lambda>c. c \<noteq> CHR '':'') part))) part"
    by (simp add: dropWhile_eq_drop drop_Suc tl_drop)
  then show "noSpaceIn (snd (splitColon part)) []"
    using assms by (simp add: splitColon_def noSpaceIn_drop)
qed

lemma compoundPart_field:
  assumes "isField part"
  shows "compoundPart part params =
     (if CHR '':'' \<in> set part then
        (if fst (splitColon part) \<in> set qualifiedFields
         then params(fst (splitColon part) \<mapsto> snd (splitColon part)) else params)
      else params(''search_string'' \<mapsto>
             (if lookup params ''search_string'' = [] then part
              else lookup params ''search_string'' @ '' '' @ part)))"
  using assms splitColon_nospace [of part]
  by (auto simp: compoundPart_def isField_def TrimSpace_id split: prod.splits)

lemma joinWith_Cons: "joinWith sep (x # xs) = (if xs = [] then x else x @ sep @ joinWith sep xs)"
  by (cases xs) simp_all

lemma search_string_not_qualified: "''search_string'' \<notin> set qualifiedFields"
  by (simp add: qualifiedFields_def)

lemma fold_search_string:
  "list_all isField parts \<Longrightarrow>
   lookup (fold compoundPart parts params) ''search_string'' =
     joinWith '' '' ((if lookup params ''search_string'' = [] then []
                      else [lookup params ''search_string'']) @ plainParts parts)"
proof (induction parts arbitrary: params)
  case Nil
  then show ?case by (simp add: plainParts_def)
next
  case (Cons part parts)
  then have f: "isField part" and fs: "list_all isField parts" by simp_all
  from f have ne: "part \<noteq> []" by (simp add: isField_def)
  show ?case
  proof (cases "CHR '':'' \<in> set part")
    case True
    have "lookup (compoundPart part params) ''search_string'' = lookup params ''search_string''"
      using True search_string_not_qualified
      by (auto simp: compoundPart_field [OF f] lookup_def)
    with Cons.IH [OF fs, of "compoundPart part params"] True show ?thesis
      by (simp add: plainParts_def)
  next
    case False
    have "lookup (compoundPart part params) ''search_string'' =
       (if lookup params ''search_string'' = [] then part
        else lookup params ''search_string'' @ '' '' @ part)"
      using False by (simp add: compoundPart_field [OF f] lookup_def)
    with Cons.IH [OF fs, of "compoundPart part params"] False ne show ?thesis
      by (simp add: plainParts_def joinWith_Cons)
  qed
qed

lemma fold_qualified:
  "list_all isField parts \<Longrightarrow> key \<in> set qualifiedFields \<Longrightarrow>
   fold compoundPart parts params key =
     (if valuesFor key parts = [] then params key else Some (last (valuesFor key parts)))"
proof (induction parts arbitrary: params)
  case Nil
  then show ?case by (simp add: valuesFor_def)
next
  case (Cons part parts)
  then have f: "isField part" and fs: "list_all isField parts" by simp_all
  from Cons.prems(2) have nss: "key \<noteq> ''search_string''"
    using search_string_not_qualified by auto
  show ?case
    using Cons.IH [OF fs Cons.prems(2), of "compoundPart part params"] Cons.prems(2) nss
    by (auto simp: compoundPart_field [OF f] valuesFor_def)
qed

lemma fold_other:
  "list_all isField parts \<Longrightarrow> key \<notin> set qualifiedFields \<Longrightarrow> key \<noteq> ''search_string'' \<Longrightarrow>
   fold compoundPart parts params key = params key"
proof (induction parts arbitrary: params)
  case Nil
  then show ?case by simp
next
  case (Cons part parts)
  then have f: "isField part" and fs: "list_all isField parts" by simp_all
  show ?case
    using Cons.IH [OF fs Cons.prems(2,3), of "compoundPart part params"] Cons.prems(2,3)
    by (auto simp: compoundPart_field [OF f])
qed


lemma lookup_upd_other: "k \<noteq> k' \<Longrightarrow> lookup (m(k' \<mapsto> v)) k = lookup m k"
  by (simp add: lookup_def)

lemma advanced_fold_other:
  "k \<notin> set ks \<Longrightarrow>
   fold (\<lambda>param params. if query param \<noteq> [] then params(param \<mapsto> query param) else params)
     ks p k = p k"
  by (induction ks arbitrary: p) auto

lemma plainParams_search_string:
  "lookup (plainParams query) ''search_string'' = query ''search_string''"
proof -
  have n: "''search_string'' \<notin> set advancedParams"
    by (simp add: advancedParams_def)
  define p1 where "p1 = (if query ''search_string'' \<noteq> []
      then [''search_string'' \<mapsto> query ''search_string''] else Map.empty)"
  have l1: "lookup p1 ''search_string'' = query ''search_string''"
    by (simp add: p1_def lookup_def)
  define p2 where "p2 = (if query ''after'' \<noteq> [] then p1(''after'' \<mapsto> query ''after'') else p1)"
  have l2: "lookup p2 ''search_string'' = query ''search_string''"
    using l1 by (simp add: p2_def lookup_upd_other)
  define p3 where "p3 = (if query ''before'' \<noteq> [] then p2(''before'' \<mapsto> query ''before'') else p2)"
  have l3: "lookup p3 ''search_string'' = query ''search_string''"
    using l2 by (simp add: p3_def lookup_upd_other)
  define p4 where "p4 = (if query ''sort'' \<noteq> [] then p3(''sort'' \<mapsto> query ''sort'')
      else p3(''sort'' \<mapsto> ''relevance''))"
  have l4: "lookup p4 ''search_string'' = query ''search_string''"
    using l3 by (simp add: p4_def lookup_upd_other)
  define p5 where "p5 = (if query ''time'' \<noteq> [] then p4(''time'' \<mapsto> query ''time'')
      else p4(''time'' \<mapsto> ''all''))"
  have l5: "lookup p5 ''search_string'' = query ''search_string''"
    using l4 by (simp add: p5_def lookup_upd_other)
  define p6 where "p6 = (if query ''limit'' \<noteq> [] then p5(''limit'' \<mapsto> query ''limit'')
      else p5(''limit'' \<mapsto> ''25''))"
  have l6: "lookup p6 ''search_string'' = query ''search_string''"
    using l5 by (simp add: p6_def lookup_upd_other)
  have "plainParams query =
      fold (\<lambda>param params. if query param \<noteq> [] then params(param \<mapsto> query param) else params)
        advancedParams p6"
    by (simp only: plainParams_def Let_def p1_def p2_def p3_def p4_def p5_def p6_def)
  then have "plainParams query ''search_string'' = p6 ''search_string''"
    using advanced_fold_other [OF n, of query p6] by simp
  with l6 show ?thesis by (simp add: lookup_def)
qed

text \<open>
  C6, as the code has it.  Let the parts be the white-space separated fields of
  \<open>compound_query\<close> (white space as \<open>unicode.IsSpace\<close> has it).  The parts without a colon
  are appended, in order and separated by single spaces, to the search string the
  request gave.  A part with a colon is cut at its first colon into key and value; for
  a key of the qualified-field set the field ends up with the value of the last such
  part (and with what the request gave when there is none).  Every other entry of the
  result is what it was before the compound query was looked at: a part with a colon
  whose key is outside the set changes nothing, it does not reach the search string.
\<close>

theorem buildSearchParams_compound_query:
  "lookup (buildSearchParams query) ''search_string'' =
     joinWith '' '' ((if query ''search_string'' = [] then [] else [query ''search_string''])
                     @ plainParts (Fields (query ''compound_query'')))
   \<and> (key \<in> set qualifiedFields \<longrightarrow>
        buildSearchParams query key =
          (if valuesFor key (Fields (query ''compound_query'')) = [] then plainParams query key
           else Some (last (valuesFor key (Fields (query ''compound_query''))))))
   \<and> (key \<notin> set qualifiedFields \<longrightarrow> key \<noteq> ''search_string'' \<longrightarrow>
        buildSearchParams query key = plainParams query key)"
proof (cases "query ''compound_query'' = []")
  case True
  then have eq: "buildSearchParams query = plainParams query"
    by (simp add: buildSearchParams_def Let_def)
  from True have f: "Fields (query ''compound_query'') = []"
    by (simp add: Fields_def)
  show ?thesis
    unfolding eq f by (simp add: plainParts_def valuesFor_def plainParams_search_string)
next
  case False
  then have eq: "buildSearchParams query =
      fold compoundPart (Fields (query ''compound_query'')) (plainParams query)"
    by (simp add: buildSearchParams_def Let_def)
  show ?thesis
    unfolding eq
    using fold_search_string [OF Fields_fields, of "query ''compound_query''" "plainParams query"]
      fold_qualified [OF Fields_fields, of key "query ''compound_query''" "plainParams query"]
      fold_other [OF Fields_fields, of key "query ''compound_query''" "plainParams query"]
    by (simp add: plainParams_search_string)
qed

theorem buildSearchParams_compound_query_witness:
  "lookup (buildSearchParams compoundOnly) ''search_string'' = ''baz qux''
   \<and> buildSearchParams compoundOnly ''subreddit'' = Some ''golang''
   \<and> buildSearchParams compoundOnly ''foo'' = None
   \<and> lookup (buildSearchParams unicodeSpaces) ''search_string'' = ''cats dogs''
   \<and> buildSearchParams unicodeSpaces ''author'' = Some ''bob''"
proof -
  have F: "Fields (compoundOnly ''compound_query'') = [''foo:bar'', ''baz'', ''subreddit:golang'', ''qux'']"
    by code_simp
  have P: "plainParams compoundOnly ''foo'' = None"
    by code_simp
  have S: "compoundOnly ''search_string'' = []"
    by code_simp
  have V: "valuesFor ''subreddit'' [''foo:bar'', ''baz'', ''subreddit:golang'', ''qux''] = [''golang'']"
    by code_simp
  have L: "plainParts [''foo:bar'', ''baz'', ''subreddit:golang'', ''qux''] = [''baz'', ''qux'']"
    by code_simp
  have Q: "''subreddit'' \<in> set qualifiedFields" "''foo'' \<notin> set qualifiedFields"
    "''author'' \<in> set qualifiedFields"
    by code_simp+
  have F': "Fields (unicodeSpaces ''compound_query'') = [''cats'', ''dogs'', ''author:bob'']"
    by code_simp
  have S': "unicodeSpaces ''search_string'' = []"
    by code_simp
  have V': "valuesFor ''author'' [''cats'', ''dogs'', ''author:bob''] = [''bob'']"
    by code_simp
  have L': "plainParts [''cats'', ''dogs'', ''author:bob''] = [''cats'', ''dogs'']"
    by code_simp
  from buildSearchParams_compound_query [of compoundOnly "''subreddit''"]
       buildSearchParams_compound_query [of compoundOnly "''foo''"]
       buildSearchParams_compound_query [of unicodeSpaces "''author''"]
  show ?thesis
    unfolding F V L S F' V' L' S' by (simp add: P Q)
qed

text \<open>
  The claim as stated fails on the compound query \<open>foo:bar baz subreddit:golang  qux\<close>:
  the part \<open>foo:bar\<close> has a key outside the set and is not in the search string.
\<close>

theorem unknown_key_token_dropped_counterexample:
  "Fields (compoundOnly ''compound_query'') = [''foo:bar'', ''baz'', ''subreddit:golang'', ''qux'']
   \<and> buildSearchParams compoundOnly ''search_string'' = Some ''baz qux''"
  by code_simp

end
